theory Spec2Isabelle
  imports Main
begin

section \<open>Python strings and the Unicode decimal digits\<close>

text \<open>
  A Python \<open>str\<close> is a sequence of Unicode code points, so a string is modelled as the
  list of its code points. String literals of the source are ASCII and are written
  through \<open>ascii\<close>.
\<close>

type_synonym pystr = "nat list"

definition ascii :: "string \<Rightarrow> pystr" where
  "ascii s = map of_char s"

text \<open>
  The regular-expression class \<open>\d\<close> of a \<open>str\<close> pattern and the built-in \<open>int\<close> both work
  on the characters with the Unicode decimal-digit property (category Nd). The table is
  the one of the Unicode database shipped with CPython 3.11 (Unicode 14.0): each entry is
  the first code point of a run and the length of the run; the digit value of a
  character is its offset in the run modulo ten. The first run is ASCII \<open>0\<close>..\<open>9\<close>.
\<close>

definition decimal_runs :: "(nat \<times> nat) list" where
  "decimal_runs =
    [(48, 10), (1632, 10), (1776, 10), (1984, 10), (2406, 10), (2534, 10), (2662, 10),
     (2790, 10), (2918, 10), (3046, 10), (3174, 10), (3302, 10), (3430, 10), (3558, 10),
     (3664, 10), (3792, 10), (3872, 10), (4160, 10), (4240, 10), (6112, 10), (6160, 10),
     (6470, 10), (6608, 10), (6784, 10), (6800, 10), (6992, 10), (7088, 10), (7232, 10),
     (7248, 10), (42528, 10), (43216, 10), (43264, 10), (43472, 10), (43504, 10),
     (43600, 10), (44016, 10), (65296, 10), (66720, 10), (68912, 10), (69734, 10),
     (69872, 10), (69942, 10), (70096, 10), (70384, 10), (70736, 10), (70864, 10),
     (71248, 10), (71360, 10), (71472, 10), (71904, 10), (72016, 10), (72784, 10),
     (73040, 10), (73120, 10), (92768, 10), (92864, 10), (93008, 10), (120782, 50),
     (123200, 10), (123632, 10), (125264, 10), (130032, 10)]"

definition decimal_value :: "nat \<Rightarrow> nat option" where
  "decimal_value c =
     (case find (\<lambda>(a, n). a \<le> c \<and> c < a + n) decimal_runs of
        None \<Rightarrow> None
      | Some (a, n) \<Rightarrow> Some ((c - a) mod 10))"

definition unicode_decimal :: "nat \<Rightarrow> bool" where
  "unicode_decimal c = (decimal_value c \<noteq> None)"

definition ascii_digit :: "nat \<Rightarrow> bool" where
  "ascii_digit c = (48 \<le> c \<and> c \<le> 57)"

section \<open>Exceptions\<close>

text \<open>
  Every error of the program is a \<open>ValueError\<close> carrying its message; \<open>str(error)\<close> is
  the message. A method that mutates its object returns the outcome together with the
  object as it is left, so that what an exception leaves behind is part of the model.
\<close>

datatype exn = ValueError pystr

fun str_exn :: "exn \<Rightarrow> pystr" where
  "str_exn (ValueError m) = m"

section \<open>Fields\<close>

datatype name = Name (name_value: pystr)

datatype phone = Phone (phone_value: pystr)

definition Name_init :: "pystr \<Rightarrow> exn + name" where
  "Name_init n =
     (if n = [] then Inl (ValueError (ascii ''Name is a required field''))
      else Inr (Name n))"

text \<open>\<open>match_digits n s\<close> matches \<open>\d{n}\<close> at the start of \<open>s\<close> and returns what follows.\<close>

fun match_digits :: "nat \<Rightarrow> pystr \<Rightarrow> pystr option" where
  "match_digits 0 s = Some s"
| "match_digits (Suc n) [] = None"
| "match_digits (Suc n) (c # s) = (if unicode_decimal c then match_digits n s else None)"

text \<open>\<open>re.fullmatch(r"\d{10}", phone)\<close>: the match has to end where the string ends.\<close>

definition fullmatch_d10 :: "pystr \<Rightarrow> bool" where
  "fullmatch_d10 s = (match_digits 10 s = Some [])"

text \<open>
  The argument is a \<open>str\<close> by its type here, so the \<open>isinstance\<close> test of the source
  always passes.
\<close>

definition Phone_init :: "pystr \<Rightarrow> exn + phone" where
  "Phone_init p =
     (if \<not> fullmatch_d10 p then Inl (ValueError (ascii ''Phone number must be 10 digits''))
      else Inr (Phone p))"


section \<open>Calendar dates\<close>

text \<open>
  \<open>datetime.date\<close>, after CPython's \<open>datetime\<close> module: the constructor checks its
  fields (\<open>MINYEAR = 1\<close>, \<open>MAXYEAR = 9999\<close>), \<open>replace(year=y)\<close> builds a new date through
  the constructor, dates compare as \<open>(year, month, day)\<close> triples and the difference of
  two dates is the difference of their proleptic Gregorian ordinals.
\<close>

record date =
  year :: int
  month :: int
  day :: int

definition is_leap :: "int \<Rightarrow> bool" where
  "is_leap y = (y mod 4 = 0 \<and> (y mod 100 \<noteq> 0 \<or> y mod 400 = 0))"

definition days_in_month :: "int \<Rightarrow> int \<Rightarrow> int" where
  "days_in_month y m =
     (if m = 2 then (if is_leap y then 29 else 28)
      else if m = 4 \<or> m = 6 \<or> m = 9 \<or> m = 11 then 30 else 31)"

definition valid_date :: "date \<Rightarrow> bool" where
  "valid_date d =
     (1 \<le> year d \<and> year d \<le> 9999 \<and> 1 \<le> month d \<and> month d \<le> 12 \<and>
      1 \<le> day d \<and> day d \<le> days_in_month (year d) (month d))"

function dec :: "nat \<Rightarrow> pystr" where
  "dec n = (if n < 10 then [48 + n] else dec (n div 10) @ [48 + n mod 10])"
  by pat_completeness auto
termination
  by (relation "measure (\<lambda>n. n)") auto

declare dec.simps [simp del]

definition str_int :: "int \<Rightarrow> pystr" where
  "str_int i = (if i < 0 then 45 # dec (nat (- i)) else dec (nat i))"

definition date_new :: "int \<Rightarrow> int \<Rightarrow> int \<Rightarrow> exn + date" where
  "date_new y m d =
     (if \<not> (1 \<le> y \<and> y \<le> 9999)
        then Inl (ValueError (ascii ''year '' @ str_int y @ ascii '' is out of range''))
      else if \<not> (1 \<le> m \<and> m \<le> 12)
        then Inl (ValueError (ascii ''month must be in 1..12''))
      else if \<not> (1 \<le> d \<and> d \<le> days_in_month y m)
        then Inl (ValueError (ascii ''day is out of range for month''))
      else Inr \<lparr>year = y, month = m, day = d\<rparr>)"

definition replace_year :: "date \<Rightarrow> int \<Rightarrow> exn + date" where
  "replace_year d y = date_new y (month d) (day d)"

definition date_lt :: "date \<Rightarrow> date \<Rightarrow> bool" where
  "date_lt a b =
     (year a < year b \<or>
      (year a = year b \<and> (month a < month b \<or> (month a = month b \<and> day a < day b))))"

definition days_before_year :: "int \<Rightarrow> int" where
  "days_before_year y = (let y1 = y - 1 in y1 * 365 + y1 div 4 - y1 div 100 + y1 div 400)"

definition days_before_month :: "int \<Rightarrow> int \<Rightarrow> int" where
  "days_before_month y m = sum_list (map (days_in_month y) [1..m - 1])"

definition toordinal :: "date \<Rightarrow> int" where
  "toordinal d = days_before_year (year d) + days_before_month (year d) (month d) + day d"

text \<open>\<open>(a - b).days\<close>\<close>

definition days_between :: "date \<Rightarrow> date \<Rightarrow> int" where
  "days_between a b = toordinal a - toordinal b"

text \<open>
  \<open>strftime('%Y.%m.%d')\<close>: \<open>%m\<close> and \<open>%d\<close> are zero-padded to two digits; \<open>%Y\<close> is
  the C library's, which on glibc prints the year without padding (four digits from the
  year 1000 on).
\<close>

definition two_digits :: "nat \<Rightarrow> pystr" where
  "two_digits n = [48 + n div 10, 48 + n mod 10]"

definition strftime_Ymd :: "date \<Rightarrow> pystr" where
  "strftime_Ymd d =
     dec (nat (year d)) @ [46] @ two_digits (nat (month d)) @ [46] @ two_digits (nat (day d))"

section \<open>Parsing a birthday\<close>

text \<open>
  \<open>datetime.strptime(value, "%d.%m.%Y")\<close> compiles the format into the regular expression
  \<^verbatim>\<open>(?P<d>3[0-1]|[1-2]\d|0[1-9]|[1-9]| [1-9])\.(?P<m>1[0-2]|0[1-9]|[1-9])\.(?P<Y>\d\d\d\d)\<close>
  and matches it at the start of the string. Each matcher below returns, in the order in
  which the backtracking matcher tries them, the ways its expression matches a prefix:
  the matched text and what follows.
\<close>

definition between :: "nat \<Rightarrow> nat \<Rightarrow> nat \<Rightarrow> bool" where
  "between lo hi c = (lo \<le> c \<and> c \<le> hi)"

definition re_two :: "(nat \<Rightarrow> bool) \<Rightarrow> (nat \<Rightarrow> bool) \<Rightarrow> pystr \<Rightarrow> (pystr \<times> pystr) list" where
  "re_two P Q s = (case s of a # b # r \<Rightarrow> (if P a \<and> Q b then [([a, b], r)] else []) | _ \<Rightarrow> [])"

definition re_one :: "(nat \<Rightarrow> bool) \<Rightarrow> pystr \<Rightarrow> (pystr \<times> pystr) list" where
  "re_one P s = (case s of a # r \<Rightarrow> (if P a then [([a], r)] else []) | _ \<Rightarrow> [])"

definition re_d :: "pystr \<Rightarrow> (pystr \<times> pystr) list" where
  "re_d s =
     re_two (\<lambda>a. a = 51) (between 48 49) s @
     re_two (between 49 50) unicode_decimal s @
     re_two (\<lambda>a. a = 48) (between 49 57) s @
     re_one (between 49 57) s @
     re_two (\<lambda>a. a = 32) (between 49 57) s"

definition re_m :: "pystr \<Rightarrow> (pystr \<times> pystr) list" where
  "re_m s =
     re_two (\<lambda>a. a = 49) (between 48 50) s @
     re_two (\<lambda>a. a = 48) (between 49 57) s @
     re_one (between 49 57) s"

definition re_Y :: "pystr \<Rightarrow> (pystr \<times> pystr) list" where
  "re_Y s = (case match_digits 4 s of None \<Rightarrow> [] | Some r \<Rightarrow> [(take 4 s, r)])"

definition re_dot :: "pystr \<Rightarrow> pystr list" where
  "re_dot s = (case s of c # r \<Rightarrow> (if c = 46 then [r] else []) | [] \<Rightarrow> [])"

text \<open>
  The expression is the sequence of the five parts; \<open>after_m\<close> matches what follows the
  month group and \<open>after_d\<close> what follows the day group, given the texts of the groups
  already matched. A match of the whole is the texts of the three groups and what
  remains of the string.
\<close>

definition after_m :: "pystr \<Rightarrow> pystr \<Rightarrow> pystr \<Rightarrow> (pystr \<times> pystr \<times> pystr \<times> pystr) list" where
  "after_m d m r = concat (map (\<lambda>r'. map (\<lambda>(y, r''). (d, m, y, r'')) (re_Y r')) (re_dot r))"

definition after_d :: "pystr \<Rightarrow> pystr \<Rightarrow> (pystr \<times> pystr \<times> pystr \<times> pystr) list" where
  "after_d d r = concat (map (\<lambda>r'. concat (map (\<lambda>(m, r''). after_m d m r'') (re_m r'))) (re_dot r))"

definition format_regex_match :: "pystr \<Rightarrow> (pystr \<times> pystr \<times> pystr \<times> pystr) list" where
  "format_regex_match s = concat (map (\<lambda>(d, r). after_d d r) (re_d s))"

text \<open>
  \<open>int(text)\<close> on the text of a group: leading blanks are skipped and the decimal
  digits, of any script, are read in base ten; \<open>None\<close> is the \<open>ValueError\<close> of \<open>int\<close>.
\<close>

definition py_int :: "pystr \<Rightarrow> int option" where
  "py_int s =
     (let t = dropWhile (\<lambda>c. c = 32) s
      in if t = [] then None
         else map_option (\<lambda>vs. int (foldl (\<lambda>a v. 10 * a + v) 0 vs)) (those (map decimal_value t)))"

text \<open>
  \<open>None\<close> is the \<open>ValueError\<close> that \<open>strptime\<close> raises: the expression does not match, the
  match ends before the string does ("unconverted data remains"), or the numbers are
  not a date.
\<close>

definition strptime_dmY :: "pystr \<Rightarrow> date option" where
  "strptime_dmY s =
     (case format_regex_match s of
        [] \<Rightarrow> None
      | (d, m, y, r) # _ \<Rightarrow>
          if r \<noteq> [] then None
          else (case (py_int y, py_int m, py_int d) of
                  (Some yy, Some mm, Some dd) \<Rightarrow>
                    (case date_new yy mm dd of Inl e \<Rightarrow> None | Inr dt \<Rightarrow> Some dt)
                | _ \<Rightarrow> None))"

datatype birthday = Birthday (birthday_value: date)

definition Birthday_init :: "pystr \<Rightarrow> exn + birthday" where
  "Birthday_init v =
     (case strptime_dmY v of
        None \<Rightarrow> Inl (ValueError (ascii ''Invalid date format. Example: DD.MM.YYYY''))
      | Some d \<Rightarrow> Inr (Birthday d))"

section \<open>Record\<close>

record py_record =
  name :: name
  phones :: "phone list"
  birthday :: "birthday option"

definition Record_init :: "pystr \<Rightarrow> exn + py_record" where
  "Record_init n =
     (case Name_init n of
        Inl e \<Rightarrow> Inl e
      | Inr nm \<Rightarrow> Inr \<lparr>name = nm, phones = [], birthday = None\<rparr>)"

definition add_phone :: "py_record \<Rightarrow> pystr \<Rightarrow> (exn + unit) \<times> py_record" where
  "add_phone r new_phone =
     (if list_ex (\<lambda>p. phone_value p = new_phone) (phones r)
        then (Inl (ValueError (ascii ''Phone number already exists'')), r)
      else (case Phone_init new_phone of
              Inl e \<Rightarrow> (Inl e, r)
            | Inr p \<Rightarrow> (Inr (), r\<lparr>phones := phones r @ [p]\<rparr>)))"

text \<open>The loops run over the phones still to be visited; \<open>r\<close> is the record itself.\<close>

fun remove_phone_loop :: "py_record \<Rightarrow> phone list \<Rightarrow> pystr \<Rightarrow> (exn + unit) \<times> py_record" where
  "remove_phone_loop r [] ph = (Inl (ValueError (ascii ''Phone number not found'')), r)"
| "remove_phone_loop r (p # ps) ph =
     (if phone_value p = ph then (Inr (), r\<lparr>phones := remove1 p (phones r)\<rparr>)
      else remove_phone_loop r ps ph)"

definition remove_phone :: "py_record \<Rightarrow> pystr \<Rightarrow> (exn + unit) \<times> py_record" where
  "remove_phone r ph = remove_phone_loop r (phones r) ph"

fun edit_phone_loop ::
  "py_record \<Rightarrow> nat \<Rightarrow> phone list \<Rightarrow> pystr \<Rightarrow> pystr \<Rightarrow> (exn + unit) \<times> py_record" where
  "edit_phone_loop r i [] old_phone new_phone =
     (Inl (ValueError (ascii ''Old phone number not found'')), r)"
| "edit_phone_loop r i (p # ps) old_phone new_phone =
     (if phone_value p = old_phone
        then (case Phone_init new_phone of
                Inl e \<Rightarrow> (Inl e, r)
              | Inr q \<Rightarrow> (Inr (), r\<lparr>phones := (phones r)[i := q]\<rparr>))
      else edit_phone_loop r (Suc i) ps old_phone new_phone)"

definition edit_phone :: "py_record \<Rightarrow> pystr \<Rightarrow> pystr \<Rightarrow> (exn + unit) \<times> py_record" where
  "edit_phone r old_phone new_phone = edit_phone_loop r 0 (phones r) old_phone new_phone"

fun find_phone_loop :: "phone list \<Rightarrow> pystr \<Rightarrow> exn + pystr" where
  "find_phone_loop [] ph = Inl (ValueError (ascii ''Phone number not found''))"
| "find_phone_loop (p # ps) ph =
     (if phone_value p = ph then Inr (phone_value p) else find_phone_loop ps ph)"

definition find_phone :: "py_record \<Rightarrow> pystr \<Rightarrow> exn + pystr" where
  "find_phone r ph = find_phone_loop (phones r) ph"

definition add_birthday :: "py_record \<Rightarrow> pystr \<Rightarrow> (exn + unit) \<times> py_record" where
  "add_birthday r b =
     (case Birthday_init b of
        Inl e \<Rightarrow> (Inl e, r)
      | Inr bd \<Rightarrow> (Inr (), r\<lparr>birthday := Some bd\<rparr>))"

section \<open>AddressBook\<close>

text \<open>
  The \<open>data\<close> dictionary of the \<open>UserDict\<close>, as the list of its items in insertion order.
  Assigning to a key that is present replaces the value where it stands, assigning to a
  new key appends an item, and deleting a key removes its item.
\<close>

type_synonym AddressBook = "(pystr \<times> py_record) list"

definition dict_contains :: "'k \<Rightarrow> ('k \<times> 'v) list \<Rightarrow> bool" where
  "dict_contains k d = (k \<in> set (map fst d))"

definition dict_set :: "('k \<times> 'v) list \<Rightarrow> 'k \<Rightarrow> 'v \<Rightarrow> ('k \<times> 'v) list" where
  "dict_set d k v =
     (if dict_contains k d then map (\<lambda>(k', v'). if k' = k then (k', v) else (k', v')) d
      else d @ [(k, v)])"

definition dict_del :: "('k \<times> 'v) list \<Rightarrow> 'k \<Rightarrow> ('k \<times> 'v) list" where
  "dict_del d k = filter (\<lambda>(k', v'). k' \<noteq> k) d"

definition add_record :: "AddressBook \<Rightarrow> py_record \<Rightarrow> (exn + unit) \<times> AddressBook" where
  "add_record book record =
     (if dict_contains (name_value (name record)) book
        then (Inl (ValueError (ascii ''Record with name '' @ [39] @ name_value (name record) @
                                 [39] @ ascii '' already exists'')), book)
      else (Inr (), dict_set book (name_value (name record)) record))"

definition find_name :: "AddressBook \<Rightarrow> pystr \<Rightarrow> py_record option" where
  "find_name book n = map_of book n"

definition delete_name :: "AddressBook \<Rightarrow> pystr \<Rightarrow> (exn + unit) \<times> AddressBook" where
  "delete_name book n =
     (if dict_contains n book then (Inr (), dict_del book n)
      else (Inl (ValueError (ascii ''Contact not found'')), book))"

text \<open>
  An entry of the result: the dictionary with the keys \<open>'name'\<close> and
  \<open>'congratulation_date'\<close>.
\<close>

record congratulation =
  entry_name :: pystr
  congratulation_date :: pystr

text \<open>
  The loop of \<open>get_upcoming_birthdays\<close> over \<open>self.data.values()\<close>, with the list built so
  far. \<open>today\<close> is what \<open>datetime.today().date()\<close> returned. An exception of \<open>replace\<close>
  leaves the loop and the method.
\<close>

fun upcoming_loop ::
  "date \<Rightarrow> py_record list \<Rightarrow> congratulation list \<Rightarrow> exn + congratulation list" where
  "upcoming_loop today [] upcoming_birthdays = Inr upcoming_birthdays"
| "upcoming_loop today (record # rest) upcoming_birthdays =
     (case birthday record of
        None \<Rightarrow> upcoming_loop today rest upcoming_birthdays
      | Some b \<Rightarrow>
          (case replace_year (birthday_value b) (year today) of
             Inl e \<Rightarrow> Inl e
           | Inr birthday_this_year \<Rightarrow>
               (case (if date_lt birthday_this_year today
                      then replace_year birthday_this_year (year today + 1)
                      else Inr birthday_this_year) of
                  Inl e \<Rightarrow> Inl e
                | Inr birthday_this_year \<Rightarrow>
                    (let days_to_birthday = days_between birthday_this_year today
                     in if 0 \<le> days_to_birthday \<and> days_to_birthday \<le> 7
                        then upcoming_loop today rest
                               (upcoming_birthdays @
                                [\<lparr>entry_name = name_value (name record),
                                  congratulation_date = strftime_Ymd birthday_this_year\<rparr>])
                        else upcoming_loop today rest upcoming_birthdays))))"

definition get_upcoming_birthdays :: "date \<Rightarrow> AddressBook \<Rightarrow> exn + congratulation list" where
  "get_upcoming_birthdays today book = upcoming_loop today (map snd book) []"

section \<open>Command handlers\<close>

text \<open>\<open>input_error\<close>: an exception of the handler becomes its message.\<close>

definition input_error ::
  "(pystr list \<Rightarrow> AddressBook \<Rightarrow> (exn + pystr) \<times> AddressBook) \<Rightarrow>
   pystr list \<Rightarrow> AddressBook \<Rightarrow> pystr \<times> AddressBook" where
  "input_error func args book =
     (case func args book of
        (Inl error, book') \<Rightarrow> (str_exn error, book')
      | (Inr result, book') \<Rightarrow> (result, book'))"

text \<open>
  The book holds the record objects themselves, not copies, and the handlers change a
  record through a variable that refers to one of them; nothing is assigned into the
  book. In this model of values the object is recognised in the book by its value (in a
  book whose records stand under their own names no two items have equal values):
  \<open>alias_update book record record'\<close> is the book when the object \<open>record\<close> has become
  \<open>record'\<close>. It changes the items that hold the object and adds none.
\<close>

definition alias_update :: "AddressBook \<Rightarrow> py_record \<Rightarrow> py_record \<Rightarrow> AddressBook" where
  "alias_update book record record' =
     map (\<lambda>(k, v). if v = record then (k, record') else (k, v)) book"

text \<open>
  The last two lines of \<open>add_contact\<close>: \<open>record.add_phone(phone)\<close> changes the object
  that \<open>record\<close> refers to, also when it raises, and the book shows the change where it
  holds that object.
\<close>

definition add_contact_phone ::
  "AddressBook \<Rightarrow> py_record \<Rightarrow> pystr \<Rightarrow> pystr \<Rightarrow> (exn + pystr) \<times> AddressBook" where
  "add_contact_phone book record ph message =
     (case add_phone record ph of
        (Inl e, record') \<Rightarrow> (Inl e, alias_update book record record')
      | (Inr u, record') \<Rightarrow> (Inr message, alias_update book record record'))"

text \<open>
  The body of \<open>add_contact\<close>. Unpacking \<open>name, phone = args\<close> raises a \<open>ValueError\<close> when
  there are more than two arguments.
\<close>

definition add_contact_body :: "pystr list \<Rightarrow> AddressBook \<Rightarrow> (exn + pystr) \<times> AddressBook" where
  "add_contact_body args book =
     (if length args < 2 then (Inr (ascii ''Example: add [name] [phone]''), book)
      else (case args of
              [nm, ph] \<Rightarrow>
                (case find_name book nm of
                   None \<Rightarrow>
                     (case Record_init nm of
                        Inl e \<Rightarrow> (Inl e, book)
                      | Inr record \<Rightarrow>
                          (case add_record book record of
                             (Inl e, book') \<Rightarrow> (Inl e, book')
                           | (Inr u, book') \<Rightarrow>
                               add_contact_phone book' record ph (ascii ''Contact added'')))
                 | Some record \<Rightarrow>
                     add_contact_phone book record ph (ascii ''Contact updated''))
            | _ \<Rightarrow> (Inl (ValueError (ascii ''too many values to unpack (expected 2)'')), book)))"

definition add_contact :: "pystr list \<Rightarrow> AddressBook \<Rightarrow> pystr \<times> AddressBook" where
  "add_contact = input_error add_contact_body"

section \<open>Properties named by the specification\<close>

text \<open>A phone in the specification's words: exactly ten ASCII decimal digits.\<close>

definition ten_ascii_digits :: "pystr \<Rightarrow> bool" where
  "ten_ascii_digits s = (length s = 10 \<and> list_all ascii_digit s)"

text \<open>The record invariant of the specification: no two phones with the same value.\<close>

definition no_duplicate_phones :: "py_record \<Rightarrow> bool" where
  "no_duplicate_phones r = distinct (map phone_value (phones r))"

text \<open>The directory invariant of the specification: at most one record per name.\<close>

definition one_record_per_name :: "AddressBook \<Rightarrow> bool" where
  "one_record_per_name book = distinct (map fst book)"

definition phone_values :: "py_record \<Rightarrow> pystr list" where
  "phone_values r = map phone_value (phones r)"

text \<open>
  The literal format \<open>DD.MM.YYYY\<close> in the specification's words: two ASCII digits, a dot,
  two ASCII digits, a dot and four ASCII digits, and the date such a string denotes.
\<close>

definition literal_DD_MM_YYYY :: "pystr \<Rightarrow> bool" where
  "literal_DD_MM_YYYY s =
     (length s = 10 \<and> list_all ascii_digit (take 2 s) \<and> s ! 2 = 46 \<and>
      list_all ascii_digit (take 2 (drop 3 s)) \<and> s ! 5 = 46 \<and>
      list_all ascii_digit (drop 6 s))"

definition literal_date :: "pystr \<Rightarrow> date" where
  "literal_date s =
     \<lparr>year = int (1000 * (s ! 6 - 48) + 100 * (s ! 7 - 48) + 10 * (s ! 8 - 48) + (s ! 9 - 48)),
      month = int (10 * (s ! 3 - 48) + (s ! 4 - 48)),
      day = int (10 * (s ! 0 - 48) + (s ! 1 - 48))\<rparr>"

text \<open>
  The texts that the three groups of the format accept: a day of one digit, or of two
  characters of which the first may be a zero or a blank; a month of one or two digits;
  a year of four decimal digits.
\<close>

definition day_text :: "pystr \<Rightarrow> bool" where
  "day_text t =
     (case t of
        [a] \<Rightarrow> between 49 57 a
      | [a, b] \<Rightarrow>
          a = 51 \<and> between 48 49 b \<or> between 49 50 a \<and> unicode_decimal b \<or>
          a = 48 \<and> between 49 57 b \<or> a = 32 \<and> between 49 57 b
      | _ \<Rightarrow> False)"

definition month_text :: "pystr \<Rightarrow> bool" where
  "month_text t =
     (case t of
        [a] \<Rightarrow> between 49 57 a
      | [a, b] \<Rightarrow> a = 49 \<and> between 48 50 b \<or> a = 48 \<and> between 49 57 b
      | _ \<Rightarrow> False)"

definition year_text :: "pystr \<Rightarrow> bool" where
  "year_text t = (length t = 4 \<and> list_all unicode_decimal t)"

definition birthday_text :: "pystr \<Rightarrow> pystr \<Rightarrow> pystr \<Rightarrow> pystr \<Rightarrow> bool" where
  "birthday_text s d m y =
     (s = d @ [46] @ m @ [46] @ y \<and> day_text d \<and> month_text m \<and> year_text y)"

text \<open>
  The occurrence of a birthday in the specification's words: its month and day in the
  year of the reference date, and in the next year if that day fell before the reference
  date. A birthday is upcoming when its occurrence lies 0 to 7 days after the reference
  date.
\<close>

definition occurrence :: "date \<Rightarrow> date \<Rightarrow> date" where
  "occurrence today b =
     (if date_lt (b\<lparr>year := year today\<rparr>) today then b\<lparr>year := year today + 1\<rparr>
      else b\<lparr>year := year today\<rparr>)"

definition in_window :: "date \<Rightarrow> date \<Rightarrow> bool" where
  "in_window today b =
     (0 \<le> days_between (occurrence today b) today \<and>
      days_between (occurrence today b) today \<le> 7)"

definition spec_upcoming :: "date \<Rightarrow> AddressBook \<Rightarrow> congratulation list" where
  "spec_upcoming today book =
     List.map_filter
       (\<lambda>r. case birthday r of
               None \<Rightarrow> None
             | Some b \<Rightarrow>
                 if in_window today (birthday_value b)
                 then Some \<lparr>entry_name = name_value (name r),
                            congratulation_date =
                              strftime_Ymd (occurrence today (birthday_value b))\<rparr>
                 else None)
       (map snd book)"

text \<open>The format \<open>YYYY.MM.DD\<close>: four ASCII digits, a dot, two, a dot, two.\<close>

definition literal_YYYY_MM_DD :: "pystr \<Rightarrow> bool" where
  "literal_YYYY_MM_DD s =
     (length s = 10 \<and> list_all ascii_digit (take 4 s) \<and> s ! 4 = 46 \<and>
      list_all ascii_digit (take 2 (drop 5 s)) \<and> s ! 7 = 46 \<and>
      list_all ascii_digit (drop 8 s))"

definition feb29 :: "date \<Rightarrow> bool" where
  "feb29 d = (month d = 2 \<and> day d = 29)"

text \<open>Example data.\<close>

abbreviation alice :: py_record where
  "alice \<equiv> \<lparr>name = Name (ascii ''Alice''), phones = [Phone (ascii ''0123456789'')],
             birthday = None\<rparr>"

section \<open>Phone validation\<close>

lemma ascii_digit_decimal_value: "ascii_digit c \<Longrightarrow> decimal_value c = Some (c - 48)"
proof -
  assume "ascii_digit c"
  then have r: "48 \<le> c" "c < 48 + 10"
    by (simp_all add: ascii_digit_def)
  then have "(c - 48) mod 10 = c - 48"
    by simp
  with r show ?thesis
    by (simp add: decimal_value_def decimal_runs_def)
qed

lemma ascii_digit_unicode_decimal: "ascii_digit c \<Longrightarrow> unicode_decimal c"
  by (simp add: unicode_decimal_def ascii_digit_decimal_value)

lemma match_digits_Some:
  "match_digits n s = Some r \<longleftrightarrow>
     (\<exists>p. s = p @ r \<and> length p = n \<and> (\<forall>c \<in> set p. unicode_decimal c))"
proof (induction n s rule: match_digits.induct)
  case (1 s)
  then show ?case by auto
next
  case (2 n)
  then show ?case by auto
next
  case (3 n c s)
  show ?case
  proof
    assume "match_digits (Suc n) (c # s) = Some r"
    then have c: "unicode_decimal c" and m: "match_digits n s = Some r"
      by (auto split: if_splits)
    from m 3 c obtain p where "s = p @ r" "length p = n" "\<forall>c \<in> set p. unicode_decimal c"
      by auto
    with c show "\<exists>p. c # s = p @ r \<and> length p = Suc n \<and> (\<forall>c \<in> set p. unicode_decimal c)"
      by (intro exI [of _ "c # p"]) simp
  next
    assume "\<exists>p. c # s = p @ r \<and> length p = Suc n \<and> (\<forall>c \<in> set p. unicode_decimal c)"
    then obtain p where p: "c # s = p @ r" "length p = Suc n" "\<forall>c \<in> set p. unicode_decimal c"
      by blast
    then obtain q where q: "p = c # q"
      by (cases p) auto
    with p have "unicode_decimal c" "s = q @ r" "length q = n" "\<forall>c \<in> set q. unicode_decimal c"
      by auto
    with 3 show "match_digits (Suc n) (c # s) = Some r"
      by auto
  qed
qed

lemma fullmatch_d10_iff:
  "fullmatch_d10 s \<longleftrightarrow> length s = 10 \<and> (\<forall>c \<in> set s. unicode_decimal c)"
  by (auto simp: fullmatch_d10_def match_digits_Some)




text \<open>
  Claim C3, as the code has it: \<open>Phone\<close> construction succeeds exactly on the strings of ten
  characters that are all Unicode decimal digits (the class \<open>\d\<close> of a \<open>str\<close> pattern),
  and then keeps the string as its value; every string of exactly ten ASCII digits is
  among them; every other string fails with the \<open>ValueError\<close>
  "Phone number must be 10 digits".
\<close>

theorem Phone_init_ten_decimal_digits:
  "(Phone_init s = Inr (Phone s) \<longleftrightarrow> length s = 10 \<and> (\<forall>c \<in> set s. unicode_decimal c)) \<and>
   (ten_ascii_digits s \<longrightarrow> Phone_init s = Inr (Phone s)) \<and>
   (\<not> (length s = 10 \<and> (\<forall>c \<in> set s. unicode_decimal c)) \<longrightarrow>
      Phone_init s = Inl (ValueError (ascii ''Phone number must be 10 digits'')))"
  by (auto simp: Phone_init_def fullmatch_d10_iff ten_ascii_digits_def list_all_iff
      ascii_digit_unicode_decimal)

theorem Phone_init_ten_decimal_digits_witness:
  "ten_ascii_digits (ascii ''0123456789'') \<and>
   Phone_init (ascii ''0123456789'') = Inr (Phone (ascii ''0123456789'')) \<and>
   \<not> (length (ascii ''12345'') = 10 \<and> (\<forall>c \<in> set (ascii ''12345''). unicode_decimal c)) \<and>
   Phone_init (ascii ''12345'') = Inl (ValueError (ascii ''Phone number must be 10 digits''))"
proof -
  have a: "ten_ascii_digits (ascii ''0123456789'')"
    by (simp add: ten_ascii_digits_def ascii_def ascii_digit_def)
  have b: "\<not> (length (ascii ''12345'') = 10 \<and> (\<forall>c \<in> set (ascii ''12345''). unicode_decimal c))"
    by (simp add: ascii_def)
  from a b Phone_init_ten_decimal_digits [of "ascii ''0123456789''"]
    Phone_init_ten_decimal_digits [of "ascii ''12345''"]
  show ?thesis
    by blast
qed

text \<open>
  Claim C3, as stated, fails: the ten Arabic-Indic digits U+0660..U+0669 are accepted as a
  phone although none of them is an ASCII digit.
\<close>

theorem Phone_init_arabic_indic_digits_accepted:
  "Phone_init [1632, 1633, 1634, 1635, 1636, 1637, 1638, 1639, 1640, 1641] =
     Inr (Phone [1632, 1633, 1634, 1635, 1636, 1637, 1638, 1639, 1640, 1641]) \<and>
   \<not> ten_ascii_digits [1632, 1633, 1634, 1635, 1636, 1637, 1638, 1639, 1640, 1641]"
  by (simp add: Phone_init_def fullmatch_d10_iff unicode_decimal_def decimal_value_def
      decimal_runs_def ten_ascii_digits_def ascii_digit_def)

section \<open>Record operations\<close>

lemma ascii_digit_of_char_simps:
  "unicode_decimal 48" "unicode_decimal 49" "unicode_decimal 50" "unicode_decimal 51"
  "unicode_decimal 52" "unicode_decimal 53" "unicode_decimal 54" "unicode_decimal 55"
  "unicode_decimal 56" "unicode_decimal 57"
  by (simp_all add: ascii_digit_unicode_decimal ascii_digit_def)

lemma list_ex_phone_value: "list_ex (\<lambda>p. phone_value p = v) ps \<longleftrightarrow> v \<in> set (map phone_value ps)"
  by (auto simp: list_ex_iff)

lemma Phone_init_Inr: "Phone_init s = Inr p \<Longrightarrow> p = Phone s"
  by (auto simp: Phone_init_def split: if_splits)

text \<open>
  Claim C7: \<open>add_phone\<close> with a value that a phone of the record already has fails with
  "Phone number already exists" and leaves the record as it was; with a valid value that
  no phone of the record has, it succeeds and the phone sequence is the old one with the
  new phone appended at its end.
\<close>

theorem add_phone_duplicate_or_append:
  "(new_phone \<in> set (phone_values r) \<longrightarrow>
      add_phone r new_phone = (Inl (ValueError (ascii ''Phone number already exists'')), r)) \<and>
   (new_phone \<notin> set (phone_values r) \<and> Phone_init new_phone = Inr p \<longrightarrow>
      add_phone r new_phone = (Inr (), r\<lparr>phones := phones r @ [p]\<rparr>) \<and>
      phone_values (snd (add_phone r new_phone)) = phone_values r @ [new_phone])"
  by (auto simp: add_phone_def phone_values_def list_ex_phone_value dest: Phone_init_Inr)

theorem add_phone_duplicate_or_append_witness:
  "ascii ''0123456789'' \<in> set (phone_values alice) \<and>
   add_phone alice (ascii ''0123456789'') =
     (Inl (ValueError (ascii ''Phone number already exists'')), alice) \<and>
   ascii ''0999999999'' \<notin> set (phone_values alice) \<and>
   Phone_init (ascii ''0999999999'') = Inr (Phone (ascii ''0999999999'')) \<and>
   add_phone alice (ascii ''0999999999'') =
     (Inr (), alice\<lparr>phones := phones alice @ [Phone (ascii ''0999999999'')]\<rparr>)"
proof -
  have a: "ascii ''0123456789'' \<in> set (phone_values alice)"
    by (simp add: phone_values_def)
  have b: "ascii ''0999999999'' \<notin> set (phone_values alice)"
    by (simp add: phone_values_def ascii_def)
  have c: "Phone_init (ascii ''0999999999'') = Inr (Phone (ascii ''0999999999''))"
    by (simp add: Phone_init_def fullmatch_d10_iff ascii_def ascii_digit_of_char_simps)
  from a b c
    add_phone_duplicate_or_append [of "ascii ''0123456789''" alice]
    add_phone_duplicate_or_append [of "ascii ''0999999999''" alice "Phone (ascii ''0999999999'')"]
  show ?thesis
    by blast
qed

lemma edit_phone_loop_failed:
  "fst (edit_phone_loop r i ps old_phone new_phone) = Inl e \<Longrightarrow>
     snd (edit_phone_loop r i ps old_phone new_phone) = r \<and>
     (old_phone \<notin> set (map phone_value ps) \<and>
        e = ValueError (ascii ''Old phone number not found'') \<or>
      old_phone \<in> set (map phone_value ps) \<and> Phone_init new_phone = Inl e)"
  by (induction r i ps old_phone new_phone rule: edit_phone_loop.induct)
     (auto split: if_splits sum.splits)

lemma edit_phone_loop_fails:
  "old_phone \<notin> set (map phone_value ps) \<or> Phone_init new_phone = Inl e \<Longrightarrow>
     \<exists>e'. fst (edit_phone_loop r i ps old_phone new_phone) = Inl e'"
  by (induction r i ps old_phone new_phone rule: edit_phone_loop.induct)
     (auto split: if_splits sum.splits)

text \<open>
  Claim C6: an \<open>edit_phone\<close> call fails exactly when the old value is not a phone of the
  record (with "Old phone number not found") or it is one and the new value fails phone
  validation (with the error of the validation); after every failed call the record, and
  so its phone sequence, is the same as before the call.
\<close>

theorem edit_phone_failed_unchanged:
  "(fst (edit_phone r old_phone new_phone) = Inl e \<longrightarrow>
      snd (edit_phone r old_phone new_phone) = r \<and>
      phones (snd (edit_phone r old_phone new_phone)) = phones r \<and>
      (old_phone \<notin> set (phone_values r) \<and>
         e = ValueError (ascii ''Old phone number not found'') \<or>
       old_phone \<in> set (phone_values r) \<and> Phone_init new_phone = Inl e)) \<and>
   (old_phone \<notin> set (phone_values r) \<or> Phone_init new_phone = Inl e \<longrightarrow>
      (\<exists>e'. fst (edit_phone r old_phone new_phone) = Inl e'))"
  using edit_phone_loop_failed [of r 0 "phones r" old_phone new_phone e]
    edit_phone_loop_fails [of old_phone "phones r" new_phone e r 0]
  by (auto simp: edit_phone_def phone_values_def)

theorem edit_phone_failed_unchanged_witness:
  "fst (edit_phone alice (ascii ''0000000000'') (ascii ''0999999999'')) =
     Inl (ValueError (ascii ''Old phone number not found'')) \<and>
   snd (edit_phone alice (ascii ''0000000000'') (ascii ''0999999999'')) = alice \<and>
   fst (edit_phone alice (ascii ''0123456789'') (ascii ''12345'')) =
     Inl (ValueError (ascii ''Phone number must be 10 digits'')) \<and>
   snd (edit_phone alice (ascii ''0123456789'') (ascii ''12345'')) = alice"
proof -
  have a: "fst (edit_phone alice (ascii ''0000000000'') (ascii ''0999999999'')) =
             Inl (ValueError (ascii ''Old phone number not found''))"
    by (simp add: edit_phone_def ascii_def)
  have b: "fst (edit_phone alice (ascii ''0123456789'') (ascii ''12345'')) =
             Inl (ValueError (ascii ''Phone number must be 10 digits''))"
    by (simp add: edit_phone_def Phone_init_def fullmatch_d10_iff ascii_def)
  from a b
    edit_phone_failed_unchanged [of alice "ascii ''0000000000''" "ascii ''0999999999''"
      "ValueError (ascii ''Old phone number not found'')"]
    edit_phone_failed_unchanged [of alice "ascii ''0123456789''" "ascii ''12345''"
      "ValueError (ascii ''Phone number must be 10 digits'')"]
  show ?thesis
    by blast
qed

section \<open>The address book\<close>

lemma dict_set_new: "\<not> dict_contains k d \<Longrightarrow> dict_set d k v = d @ [(k, v)]"
  by (simp add: dict_set_def)

lemma map_of_append_new: "\<not> dict_contains k d \<Longrightarrow> map_of (d @ [(k, v)]) k = Some v"
  unfolding dict_contains_def by (induction d) auto

lemma alias_update_same: "alias_update book r r = book"
  by (induction book) (auto simp: alias_update_def)

lemma find_name_None: "find_name book n = None \<longleftrightarrow> \<not> dict_contains n book"
  by (simp add: find_name_def dict_contains_def map_of_eq_None_iff)

text \<open>
  Claim C8: \<open>add_record\<close> of a record whose name is the name of a stored record fails with
  "Record with name '...' already exists" and leaves the book as it was; otherwise the
  record is appended under its name and is what \<open>find\<close> returns for that name. A book with
  at most one record per name stays so.
\<close>

theorem add_record_duplicate_name:
  "(dict_contains (name_value (name record)) book \<longrightarrow>
      add_record book record =
        (Inl (ValueError (ascii ''Record with name '' @ [39] @ name_value (name record) @ [39] @
                            ascii '' already exists'')), book)) \<and>
   (\<not> dict_contains (name_value (name record)) book \<longrightarrow>
      add_record book record = (Inr (), book @ [(name_value (name record), record)]) \<and>
      find_name (snd (add_record book record)) (name_value (name record)) = Some record) \<and>
   (one_record_per_name book \<longrightarrow> one_record_per_name (snd (add_record book record)))"
proof (cases "dict_contains (name_value (name record)) book")
  case True
  then show ?thesis
    by (simp add: add_record_def)
next
  case False
  then have "add_record book record = (Inr (), book @ [(name_value (name record), record)])"
    by (simp add: add_record_def dict_set_new)
  moreover from False
  have "map_of (book @ [(name_value (name record), record)]) (name_value (name record)) =
          Some record"
    by (rule map_of_append_new)
  moreover from False
  have "distinct (map fst book) \<longrightarrow>
          distinct (map fst (book @ [(name_value (name record), record)]))"
    by (simp add: dict_contains_def)
  ultimately show ?thesis
    using False by (simp add: find_name_def one_record_per_name_def del: map_of_append)
qed

theorem add_record_duplicate_name_witness:
  "dict_contains (name_value (name alice)) [(ascii ''Alice'', alice)] \<and>
   add_record [(ascii ''Alice'', alice)] alice =
     (Inl (ValueError (ascii ''Record with name '' @ [39] @ name_value (name alice) @ [39] @
                         ascii '' already exists'')), [(ascii ''Alice'', alice)]) \<and>
   \<not> dict_contains (name_value (name alice)) [] \<and>
   add_record [] alice = (Inr (), [(ascii ''Alice'', alice)]) \<and>
   one_record_per_name [] \<and>
   one_record_per_name (snd (add_record [] alice))"
proof -
  have a: "dict_contains (name_value (name alice)) [(ascii ''Alice'', alice)]"
    by (simp add: dict_contains_def)
  have b: "\<not> dict_contains (name_value (name alice)) []"
    by (simp add: dict_contains_def)
  have c: "one_record_per_name []"
    by (simp add: one_record_per_name_def)
  from a add_record_duplicate_name [of alice "[(ascii ''Alice'', alice)]"]
  have d: "add_record [(ascii ''Alice'', alice)] alice =
     (Inl (ValueError (ascii ''Record with name '' @ [39] @ name_value (name alice) @ [39] @
                         ascii '' already exists'')), [(ascii ''Alice'', alice)])"
    by blast
  from b c add_record_duplicate_name [of alice "[]"]
  have e: "add_record [] alice = (Inr (), [] @ [(name_value (name alice), alice)]) \<and>
           one_record_per_name (snd (add_record [] alice))"
    by blast
  from e have f: "add_record [] alice = (Inr (), [(ascii ''Alice'', alice)])"
    by simp
  from a b c d e f show ?thesis
    by blast
qed

section \<open>The add command\<close>

lemma Phone_init_ascii_0123456789:
  "Phone_init (ascii ''0123456789'') = Inr (Phone (ascii ''0123456789''))"
  by (simp add: Phone_init_def fullmatch_d10_iff ascii_def ascii_digit_of_char_simps)

lemma Phone_init_ascii_0999999999:
  "Phone_init (ascii ''0999999999'') = Inr (Phone (ascii ''0999999999''))"
  by (simp add: Phone_init_def fullmatch_d10_iff ascii_def ascii_digit_of_char_simps)

lemma add_contact_Alice_first:
  "add_contact [ascii ''Alice'', ascii ''0123456789''] [] =
     (ascii ''Contact added'', [(ascii ''Alice'', alice)])"
proof -
  have "Record_init (ascii ''Alice'') =
          Inr \<lparr>name = Name (ascii ''Alice''), phones = [], birthday = None\<rparr>"
    by (simp add: Record_init_def Name_init_def ascii_def)
  then show ?thesis
    by (simp add: add_contact_def input_error_def add_contact_body_def find_name_def
        add_record_def dict_contains_def dict_set_def add_contact_phone_def alias_update_def
        add_phone_def Phone_init_ascii_0123456789)
qed

lemma add_contact_Alice_second:
  "add_contact [ascii ''Alice'', ascii ''0999999999''] [(ascii ''Alice'', alice)] =
     (ascii ''Contact updated'',
      [(ascii ''Alice'', alice\<lparr>phones := [Phone (ascii ''0123456789''),
                                             Phone (ascii ''0999999999'')]\<rparr>)])"
proof -
  have "ascii ''0123456789'' \<noteq> ascii ''0999999999''"
    by (simp add: ascii_def)
  then show ?thesis
    by (simp add: add_contact_def input_error_def add_contact_body_def find_name_def
        add_contact_phone_def alias_update_def add_phone_def Phone_init_ascii_0999999999)
qed

text \<open>
  Claim C9: on the empty book, \<open>add Alice 0123456789\<close> and then \<open>add Alice 0999999999\<close>:
  the second call returns "Contact updated", and the record then found under Alice has
  the two phones, in this order, each returned by \<open>find_phone\<close>.
\<close>

theorem add_contact_twice_Alice:
  "add_contact [ascii ''Alice'', ascii ''0123456789''] [] =
     (ascii ''Contact added'', [(ascii ''Alice'', alice)]) \<and>
   fst (add_contact [ascii ''Alice'', ascii ''0999999999'']
          (snd (add_contact [ascii ''Alice'', ascii ''0123456789''] []))) =
     ascii ''Contact updated'' \<and>
   find_name (snd (add_contact [ascii ''Alice'', ascii ''0999999999'']
                     (snd (add_contact [ascii ''Alice'', ascii ''0123456789''] []))))
     (ascii ''Alice'') =
     Some (alice\<lparr>phones := [Phone (ascii ''0123456789''), Phone (ascii ''0999999999'')]\<rparr>) \<and>
   find_phone (alice\<lparr>phones := [Phone (ascii ''0123456789''), Phone (ascii ''0999999999'')]\<rparr>)
     (ascii ''0123456789'') = Inr (ascii ''0123456789'') \<and>
   find_phone (alice\<lparr>phones := [Phone (ascii ''0123456789''), Phone (ascii ''0999999999'')]\<rparr>)
     (ascii ''0999999999'') = Inr (ascii ''0999999999'')"
proof -
  have "ascii ''0123456789'' \<noteq> ascii ''0999999999''"
    by (simp add: ascii_def)
  then show ?thesis
    by (simp add: add_contact_Alice_first add_contact_Alice_second find_name_def find_phone_def)
qed

text \<open>
  Claim C10: when \<open>add\<close> is called with a name (a non-empty string) that the book does not
  hold and a phone that fails phone validation, the handler returns the message of the
  validation error, and the book it leaves is the one that \<open>add_record\<close> made before the
  validation: the old book followed by a new record for that name with no phone and no
  birthday. The insertion is not undone.
\<close>

theorem add_contact_invalid_phone_keeps_record:
  assumes "nm \<noteq> []" and "find_name book nm = None" and "Phone_init ph = Inl e"
  shows "add_contact [nm, ph] book =
           (ascii ''Phone number must be 10 digits'',
            book @ [(nm, \<lparr>name = Name nm, phones = [], birthday = None\<rparr>)]) \<and>
         fst (add_contact [nm, ph] book) = str_exn e \<and>
         Record_init nm = Inr \<lparr>name = Name nm, phones = [], birthday = None\<rparr> \<and>
         fst (add_record book \<lparr>name = Name nm, phones = [], birthday = None\<rparr>) = Inr () \<and>
         snd (add_contact [nm, ph] book) =
           snd (add_record book \<lparr>name = Name nm, phones = [], birthday = None\<rparr>) \<and>
         snd (add_contact [nm, ph] book) \<noteq> book \<and>
         find_name (snd (add_contact [nm, ph] book)) nm =
           Some \<lparr>name = Name nm, phones = [], birthday = None\<rparr>"
proof -
  let ?r = "\<lparr>name = Name nm, phones = [], birthday = None\<rparr>"
  from assms(1) have r: "Record_init nm = Inr ?r"
    by (simp add: Record_init_def Name_init_def)
  from assms(2) have absent: "\<not> dict_contains nm book"
    by (simp add: find_name_None)
  then have ins: "add_record book ?r = (Inr (), book @ [(nm, ?r)])"
    by (simp add: add_record_def dict_set_new)
  from assms(3) have e: "e = ValueError (ascii ''Phone number must be 10 digits'')"
    by (auto simp: Phone_init_def split: if_splits)
  from assms(3) have ph: "add_phone ?r ph = (Inl e, ?r)"
    by (simp add: add_phone_def)
  have same: "alias_update (book @ [(nm, ?r)]) ?r ?r = book @ [(nm, ?r)]"
    by (rule alias_update_same)
  have "add_contact [nm, ph] book = (str_exn e, book @ [(nm, ?r)])"
    by (simp add: add_contact_def input_error_def add_contact_body_def assms(2) r ins
        add_contact_phone_def ph same)
  moreover from absent have "map_of (book @ [(nm, ?r)]) nm = Some ?r"
    by (rule map_of_append_new)
  ultimately show ?thesis
    using e r ins by (simp add: find_name_def)
qed

theorem add_contact_invalid_phone_keeps_record_witness:
  "ascii ''Bob'' \<noteq> [] \<and>
   find_name [(ascii ''Alice'', alice)] (ascii ''Bob'') = None \<and>
   Phone_init (ascii ''12345'') = Inl (ValueError (ascii ''Phone number must be 10 digits'')) \<and>
   add_contact [ascii ''Bob'', ascii ''12345''] [(ascii ''Alice'', alice)] =
     (ascii ''Phone number must be 10 digits'',
      [(ascii ''Alice'', alice),
       (ascii ''Bob'', \<lparr>name = Name (ascii ''Bob''), phones = [], birthday = None\<rparr>)])"
proof -
  have a: "ascii ''Bob'' \<noteq> []"
    by (simp add: ascii_def)
  have b: "find_name [(ascii ''Alice'', alice)] (ascii ''Bob'') = None"
    by (simp add: find_name_def ascii_def)
  have c: "Phone_init (ascii ''12345'') =
             Inl (ValueError (ascii ''Phone number must be 10 digits''))"
    by (simp add: Phone_init_def fullmatch_d10_iff ascii_def)
  from a b c add_contact_invalid_phone_keeps_record [OF a b c]
  show ?thesis
    by simp
qed

section \<open>Evaluating the parser\<close>

lemma decimal_value_ascii:
  "decimal_value 48 = Some 0" "decimal_value 49 = Some 1" "decimal_value 50 = Some 2"
  "decimal_value 51 = Some 3" "decimal_value 52 = Some 4" "decimal_value 53 = Some 5"
  "decimal_value 54 = Some 6" "decimal_value 55 = Some 7" "decimal_value 56 = Some 8"
  "decimal_value 57 = Some 9"
  by (simp_all add: ascii_digit_decimal_value ascii_digit_def)

lemma not_decimal_dot_blank: "\<not> unicode_decimal 46" "\<not> unicode_decimal 32"
  by (simp_all add: unicode_decimal_def decimal_value_def decimal_runs_def)

lemma match_digits_4:
  "match_digits 4 (a # b # c # d # r) =
     (if unicode_decimal a \<and> unicode_decimal b \<and> unicode_decimal c \<and> unicode_decimal d
      then Some r else None)"
proof -
  have "(4::nat) = Suc (Suc (Suc (Suc 0)))"
    by simp
  then show ?thesis
    by (simp only: match_digits.simps) simp
qed

lemmas strptime_eval =
  strptime_dmY_def format_regex_match_def after_d_def after_m_def re_d_def re_m_def re_Y_def re_dot_def re_two_def
  re_one_def between_def match_digits_4 ascii_digit_of_char_simps decimal_value_ascii py_int_def
  date_new_def days_in_month_def is_leap_def

lemma Birthday_init_29_02_2024:
  "Birthday_init (ascii ''29.02.2024'') = Inr (Birthday \<lparr>year = 2024, month = 2, day = 29\<rparr>)"
  by (simp add: Birthday_init_def ascii_def strptime_eval)

lemma Birthday_init_29_02_2023:
  "Birthday_init (ascii ''29.02.2023'') =
     Inl (ValueError (ascii ''Invalid date format. Example: DD.MM.YYYY''))"
  by (simp add: Birthday_init_def ascii_def strptime_eval)

lemma Birthday_init_31_02_2024:
  "Birthday_init (ascii ''31.02.2024'') =
     Inl (ValueError (ascii ''Invalid date format. Example: DD.MM.YYYY''))"
  by (simp add: Birthday_init_def ascii_def strptime_eval)

lemma Birthday_init_1_1_2024:
  "Birthday_init (ascii ''1.1.2024'') = Inr (Birthday \<lparr>year = 2024, month = 1, day = 1\<rparr>)"
  by (simp add: Birthday_init_def ascii_def strptime_eval)

section \<open>Uniqueness of the phones of a record\<close>

lemma Record_init_no_duplicate_phones:
  "Record_init n = Inr r \<Longrightarrow> no_duplicate_phones r"
  by (auto simp: Record_init_def no_duplicate_phones_def split: sum.splits)

lemma add_phone_no_duplicate_phones:
  "no_duplicate_phones r \<Longrightarrow> no_duplicate_phones (snd (add_phone r new_phone))"
  by (auto simp: add_phone_def no_duplicate_phones_def list_ex_phone_value
      split: sum.splits dest: Phone_init_Inr)

lemma distinct_map_remove1: "distinct (map f xs) \<Longrightarrow> distinct (map f (remove1 x xs))"
proof (induction xs)
  case Nil
  then show ?case by simp
next
  case (Cons y ys)
  have "set (remove1 x ys) \<subseteq> set ys"
    by (rule set_remove1_subset)
  with Cons show ?case
    by auto
qed

lemma remove_phone_loop_no_duplicate_phones:
  "no_duplicate_phones r \<Longrightarrow> no_duplicate_phones (snd (remove_phone_loop r ps ph))"
  by (induction r ps ph rule: remove_phone_loop.induct)
     (auto simp: no_duplicate_phones_def distinct_map_remove1)

lemma remove_phone_no_duplicate_phones:
  "no_duplicate_phones r \<Longrightarrow> no_duplicate_phones (snd (remove_phone r ph))"
  by (simp add: remove_phone_def remove_phone_loop_no_duplicate_phones)

lemma add_birthday_no_duplicate_phones:
  "no_duplicate_phones r \<Longrightarrow> no_duplicate_phones (snd (add_birthday r b))"
  by (auto simp: add_birthday_def no_duplicate_phones_def split: sum.splits)

text \<open>
  Claim C2 at \<open>edit_phone\<close>: on a record with the two phones 0123456789 and 0999999999,
  which has no duplicate, \<open>edit_phone("0123456789", "0999999999")\<close> succeeds and leaves the
  phone 0999999999 twice. (\<open>Record\<close>, \<open>add_phone\<close>, \<open>remove_phone\<close> and \<open>add_birthday\<close>
  keep the invariant, by the lemmas above.)
\<close>

theorem edit_phone_makes_duplicate:
  "no_duplicate_phones
     (alice\<lparr>phones := [Phone (ascii ''0123456789''), Phone (ascii ''0999999999'')]\<rparr>) \<and>
   edit_phone (alice\<lparr>phones := [Phone (ascii ''0123456789''), Phone (ascii ''0999999999'')]\<rparr>)
     (ascii ''0123456789'') (ascii ''0999999999'') =
     (Inr (), alice\<lparr>phones := [Phone (ascii ''0999999999''), Phone (ascii ''0999999999'')]\<rparr>) \<and>
   \<not> no_duplicate_phones
     (alice\<lparr>phones := [Phone (ascii ''0999999999''), Phone (ascii ''0999999999'')]\<rparr>)"
proof -
  have "ascii ''0123456789'' \<noteq> ascii ''0999999999''"
    by (simp add: ascii_def)
  then show ?thesis
    by (simp add: no_duplicate_phones_def edit_phone_def Phone_init_ascii_0999999999)
qed

section \<open>Upcoming birthdays\<close>

text \<open>
  Claim C4 at a birthday on 29 February: \<open>29.02.2024\<close> is accepted as a birthday, and with
  a record holding it the query made on 1 March 2025 ends in the \<open>ValueError\<close> of
  \<open>replace(year=2025)\<close> instead of returning a list.
\<close>

theorem get_upcoming_birthdays_feb29_raises:
  "Birthday_init (ascii ''29.02.2024'') = Inr (Birthday \<lparr>year = 2024, month = 2, day = 29\<rparr>) \<and>
   get_upcoming_birthdays \<lparr>year = 2025, month = 3, day = 1\<rparr>
     [(ascii ''Alice'',
       alice\<lparr>birthday := Some (Birthday \<lparr>year = 2024, month = 2, day = 29\<rparr>)\<rparr>)] =
     Inl (ValueError (ascii ''day is out of range for month''))"
  by (simp add: Birthday_init_29_02_2024 get_upcoming_birthdays_def replace_year_def
      date_new_def days_in_month_def is_leap_def)

section \<open>The matches of the format\<close>

lemma re_two_set:
  "(t, r) \<in> set (re_two P Q s) \<longleftrightarrow> (\<exists>a b. t = [a, b] \<and> s = a # b # r \<and> P a \<and> Q b)"
  by (auto simp: re_two_def split: list.splits)

lemma re_one_set:
  "(t, r) \<in> set (re_one P s) \<longleftrightarrow> (\<exists>a. t = [a] \<and> s = a # r \<and> P a)"
  by (auto simp: re_one_def split: list.splits)

lemma re_d_set: "(t, r) \<in> set (re_d s) \<longleftrightarrow> s = t @ r \<and> day_text t"
  by (auto simp: re_d_def re_two_set re_one_set day_text_def split: list.splits)

lemma re_m_set: "(t, r) \<in> set (re_m s) \<longleftrightarrow> s = t @ r \<and> month_text t"
  by (auto simp: re_m_def re_two_set re_one_set month_text_def split: list.splits)

lemma re_Y_set: "(t, r) \<in> set (re_Y s) \<longleftrightarrow> s = t @ r \<and> year_text t"
proof
  assume "(t, r) \<in> set (re_Y s)"
  then have m: "match_digits 4 s = Some r" and t: "t = take 4 s"
    by (auto simp: re_Y_def split: option.splits)
  from m obtain p where p: "s = p @ r" "length p = 4" "\<forall>c \<in> set p. unicode_decimal c"
    by (auto simp: match_digits_Some)
  with t have "t = p"
    by simp
  with p show "s = t @ r \<and> year_text t"
    by (simp add: year_text_def list_all_iff)
next
  assume a: "s = t @ r \<and> year_text t"
  then have "match_digits 4 s = Some r"
    by (auto simp: match_digits_Some year_text_def list_all_iff)
  moreover from a have "take 4 s = t"
    by (simp add: year_text_def)
  ultimately show "(t, r) \<in> set (re_Y s)"
    by (simp add: re_Y_def)
qed

lemma re_dot_set: "r \<in> set (re_dot s) \<longleftrightarrow> s = 46 # r"
  by (auto simp: re_dot_def split: list.splits)

lemma after_m_set:
  "(d', m', y, r') \<in> set (after_m d m r) \<longleftrightarrow>
     d' = d \<and> m' = m \<and> (\<exists>t. r = 46 # t \<and> t = y @ r' \<and> year_text y)"
  by (auto simp: after_m_def re_dot_set re_Y_set)

lemma after_d_set:
  "(d', m, y, r') \<in> set (after_d d r) \<longleftrightarrow>
     d' = d \<and> r = 46 # m @ 46 # y @ r' \<and> month_text m \<and> year_text y"
  by (auto simp: after_d_def re_dot_set re_m_set after_m_set)

lemma format_regex_match_set:
  "(d, m, y, r) \<in> set (format_regex_match s) \<longleftrightarrow>
     s = d @ 46 # m @ 46 # y @ r \<and> day_text d \<and> month_text m \<and> year_text y"
  by (auto simp: format_regex_match_def re_d_set after_d_set)

lemma day_text_no_dot: "day_text d \<Longrightarrow> 46 \<notin> set d"
  using not_decimal_dot_blank(1)
  by (auto simp: day_text_def between_def split: list.splits)

lemma month_text_no_dot: "month_text m \<Longrightarrow> 46 \<notin> set m"
  by (auto simp: month_text_def between_def split: list.splits)

lemma split_at_dot_unique:
  assumes "d @ 46 # x = d' @ 46 # x'" and "(46::nat) \<notin> set d" and "46 \<notin> set d'"
  shows "d = d' \<and> x = x'"
proof -
  from assms(2) have "takeWhile (\<lambda>c. c \<noteq> 46) (d @ 46 # x) = d"
    by (auto simp: takeWhile_tail takeWhile_eq_all_conv)
  moreover from assms(3) have "takeWhile (\<lambda>c. c \<noteq> 46) (d' @ 46 # x') = d'"
    by (auto simp: takeWhile_tail takeWhile_eq_all_conv)
  ultimately have "d = d'"
    using assms(1) by simp
  with assms(1) show ?thesis
    by simp
qed

text \<open>The expression matches a string in at most one way.\<close>

lemma format_regex_match_unique:
  assumes "a \<in> set (format_regex_match s)" and "b \<in> set (format_regex_match s)"
  shows "a = b"
proof -
  obtain d m y r where a: "a = (d, m, y, r)"
    by (cases a) auto
  obtain d' m' y' r' where b: "b = (d', m', y', r')"
    by (cases b) auto
  from assms a have 1: "s = d @ 46 # m @ 46 # y @ r" "day_text d" "month_text m" "year_text y"
    by (simp_all add: format_regex_match_set)
  from assms b have 2: "s = d' @ 46 # m' @ 46 # y' @ r'" "day_text d'" "month_text m'" "year_text y'"
    by (simp_all add: format_regex_match_set)
  from 1 2 have "d @ 46 # (m @ 46 # y @ r) = d' @ 46 # (m' @ 46 # y' @ r')"
    by simp
  with 1 2 have d: "d = d'" and "m @ 46 # (y @ r) = m' @ 46 # (y' @ r')"
    using split_at_dot_unique day_text_no_dot by blast+
  with 1 2 have m: "m = m'" and "y @ r = y' @ r'"
    using split_at_dot_unique month_text_no_dot by blast+
  with 1 2 have "y = y'" "r = r'"
    by (simp_all add: year_text_def)
  with a b d m show ?thesis
    by simp
qed

lemma format_regex_match_first:
  "(case format_regex_match s of [] \<Rightarrow> None | x # xs \<Rightarrow> f x) = Some v \<longleftrightarrow>
     (\<exists>x \<in> set (format_regex_match s). f x = Some v)"
proof (cases "format_regex_match s")
  case Nil
  then show ?thesis by simp
next
  case (Cons x xs)
  then have "\<forall>z \<in> set (format_regex_match s). z = x"
    using format_regex_match_unique [of _ s x] by simp
  with Cons show ?thesis
    by auto
qed

lemma date_new_Inr:
  "date_new y m d = Inr dt \<longleftrightarrow>
     dt = \<lparr>year = y, month = m, day = d\<rparr> \<and> valid_date \<lparr>year = y, month = m, day = d\<rparr>"
  by (auto simp: date_new_def valid_date_def)

lemma strptime_dmY_Some:
  "strptime_dmY s = Some dt \<longleftrightarrow>
     (\<exists>d m y dd mm yy.
        birthday_text s d m y \<and> py_int d = Some dd \<and> py_int m = Some mm \<and> py_int y = Some yy \<and>
        dt = \<lparr>year = yy, month = mm, day = dd\<rparr> \<and> valid_date dt)"
proof -
  let ?f = "\<lambda>(d, m, y, r).
              if r \<noteq> [] then None
              else (case (py_int y, py_int m, py_int d) of
                      (Some yy, Some mm, Some dd) \<Rightarrow>
                        (case date_new yy mm dd of Inl e \<Rightarrow> None | Inr dt \<Rightarrow> Some dt)
                    | _ \<Rightarrow> None)"
  have "strptime_dmY s = (case format_regex_match s of [] \<Rightarrow> None | x # xs \<Rightarrow> ?f x)"
    by (simp add: strptime_dmY_def split: list.splits)
  then have "strptime_dmY s = Some dt \<longleftrightarrow> (\<exists>x \<in> set (format_regex_match s). ?f x = Some dt)"
    by (simp only: format_regex_match_first)
  also have "\<dots> \<longleftrightarrow>
     (\<exists>d m y. (d, m, y, []) \<in> set (format_regex_match s) \<and>
        (\<exists>dd mm yy. py_int d = Some dd \<and> py_int m = Some mm \<and> py_int y = Some yy \<and>
           date_new yy mm dd = Inr dt))"
  proof
    assume "\<exists>x \<in> set (format_regex_match s). ?f x = Some dt"
    then obtain x where x: "x \<in> set (format_regex_match s)" "?f x = Some dt"
      by blast
    obtain d m y r where xe: "x = (d, m, y, r)"
      by (cases x) auto
    with x(2) have r: "r = []"
      by (auto split: if_splits)
    with x(2) xe obtain dd mm yy where
      "py_int d = Some dd" "py_int m = Some mm" "py_int y = Some yy" "date_new yy mm dd = Inr dt"
      by (auto split: option.splits sum.splits)
    with x(1) xe r show "\<exists>d m y. (d, m, y, []) \<in> set (format_regex_match s) \<and>
        (\<exists>dd mm yy. py_int d = Some dd \<and> py_int m = Some mm \<and> py_int y = Some yy \<and>
           date_new yy mm dd = Inr dt)"
      by blast
  next
    assume "\<exists>d m y. (d, m, y, []) \<in> set (format_regex_match s) \<and>
        (\<exists>dd mm yy. py_int d = Some dd \<and> py_int m = Some mm \<and> py_int y = Some yy \<and>
           date_new yy mm dd = Inr dt)"
    then obtain d m y dd mm yy where
      i: "(d, m, y, []) \<in> set (format_regex_match s)" and
      v: "py_int d = Some dd" "py_int m = Some mm" "py_int y = Some yy"
         "date_new yy mm dd = Inr dt"
      by blast
    from v have "?f (d, m, y, []) = Some dt"
      by simp
    with i show "\<exists>x \<in> set (format_regex_match s). ?f x = Some dt"
      by blast
  qed
  also have "\<dots> \<longleftrightarrow>
     (\<exists>d m y dd mm yy.
        birthday_text s d m y \<and> py_int d = Some dd \<and> py_int m = Some mm \<and> py_int y = Some yy \<and>
        dt = \<lparr>year = yy, month = mm, day = dd\<rparr> \<and> valid_date dt)"
  proof -
    have bt: "\<And>d m y. (d, m, y, []) \<in> set (format_regex_match s) \<longleftrightarrow> birthday_text s d m y"
      by (simp add: format_regex_match_set birthday_text_def)
    show ?thesis
      by (simp only: bt date_new_Inr) blast
  qed
  finally show ?thesis .
qed

section \<open>Strings in the literal format\<close>

lemma length_10_list:
  assumes "length s = 10"
  obtains a b c d e f g h i j where "s = [a, b, c, d, e, f, g, h, i, j]"
proof -
  from assms have "length s = Suc (Suc (Suc (Suc (Suc (Suc (Suc (Suc (Suc (Suc 0)))))))))"
    by simp
  then show ?thesis
    using that by (auto simp: length_Suc_conv)
qed

lemma literal_DD_MM_YYYY_shape:
  assumes "literal_DD_MM_YYYY s"
  shows "\<exists>d1 d2 m1 m2 y1 y2 y3 y4.
           s = [d1, d2, 46, m1, m2, 46, y1, y2, y3, y4] \<and>
           ascii_digit d1 \<and> ascii_digit d2 \<and> ascii_digit m1 \<and> ascii_digit m2 \<and>
           ascii_digit y1 \<and> ascii_digit y2 \<and> ascii_digit y3 \<and> ascii_digit y4"
proof -
  from assms have "length s = 10"
    by (simp add: literal_DD_MM_YYYY_def)
  then obtain a b c d e f g h i j where s: "s = [a, b, c, d, e, f, g, h, i, j]"
    by (rule length_10_list)
  with assms show ?thesis
    by (simp add: literal_DD_MM_YYYY_def)
qed

lemma py_int_two_ascii:
  assumes "ascii_digit a" and "ascii_digit b"
  shows "py_int [a, b] = Some (int (10 * (a - 48) + (b - 48)))"
proof -
  from assms(1) have "a \<noteq> 32"
    by (auto simp: ascii_digit_def)
  with assms show ?thesis
    by (simp add: py_int_def ascii_digit_decimal_value)
qed

lemma py_int_four_ascii:
  assumes "ascii_digit a" and "ascii_digit b" and "ascii_digit c" and "ascii_digit d"
  shows "py_int [a, b, c, d] =
           Some (int (1000 * (a - 48) + 100 * (b - 48) + 10 * (c - 48) + (d - 48)))"
proof -
  from assms(1) have "a \<noteq> 32"
    by (auto simp: ascii_digit_def)
  with assms show ?thesis
    by (simp add: py_int_def ascii_digit_decimal_value)
qed

lemma days_in_month_le_31: "days_in_month y m \<le> 31"
  by (simp add: days_in_month_def)

lemma day_text_two_ascii:
  assumes "ascii_digit a" and "ascii_digit b"
  shows "day_text [a, b] \<longleftrightarrow> 1 \<le> 10 * (a - 48) + (b - 48) \<and> 10 * (a - 48) + (b - 48) \<le> 31"
  using assms ascii_digit_unicode_decimal [of b]
  by (auto simp: day_text_def between_def ascii_digit_def)

lemma month_text_two_ascii:
  assumes "ascii_digit a" and "ascii_digit b"
  shows "month_text [a, b] \<longleftrightarrow> 1 \<le> 10 * (a - 48) + (b - 48) \<and> 10 * (a - 48) + (b - 48) \<le> 12"
  using assms
  by (auto simp: month_text_def between_def ascii_digit_def)

lemma ascii_digit_no_dot: "ascii_digit c \<Longrightarrow> c \<noteq> 46"
  by (auto simp: ascii_digit_def)

lemma birthday_text_literal:
  assumes "ascii_digit d1" "ascii_digit d2" "ascii_digit m1" "ascii_digit m2"
    "ascii_digit y1" "ascii_digit y2" "ascii_digit y3" "ascii_digit y4"
  shows "birthday_text [d1, d2, 46, m1, m2, 46, y1, y2, y3, y4] d m y \<longleftrightarrow>
           d = [d1, d2] \<and> m = [m1, m2] \<and> y = [y1, y2, y3, y4] \<and>
           day_text [d1, d2] \<and> month_text [m1, m2]"
proof
  assume bt: "birthday_text [d1, d2, 46, m1, m2, 46, y1, y2, y3, y4] d m y"
  then have e: "[d1, d2] @ 46 # ([m1, m2] @ 46 # [y1, y2, y3, y4]) = d @ 46 # (m @ 46 # y)"
    and t: "day_text d" "month_text m" "year_text y"
    by (simp_all add: birthday_text_def)
  from assms have "46 \<notin> set [d1, d2]" "46 \<notin> set [m1, m2]"
    by (auto dest: ascii_digit_no_dot)
  with e t have d: "[d1, d2] = d" and e2: "[m1, m2] @ 46 # [y1, y2, y3, y4] = m @ 46 # y"
    using split_at_dot_unique [OF e] day_text_no_dot by blast+
  from assms have "46 \<notin> set [m1, m2]"
    by (auto dest: ascii_digit_no_dot)
  with t have "[m1, m2] = m" "[y1, y2, y3, y4] = y"
    using split_at_dot_unique [OF e2] month_text_no_dot by blast+
  with d t show "d = [d1, d2] \<and> m = [m1, m2] \<and> y = [y1, y2, y3, y4] \<and>
           day_text [d1, d2] \<and> month_text [m1, m2]"
    by auto
next
  assume "d = [d1, d2] \<and> m = [m1, m2] \<and> y = [y1, y2, y3, y4] \<and>
           day_text [d1, d2] \<and> month_text [m1, m2]"
  with assms show "birthday_text [d1, d2, 46, m1, m2, 46, y1, y2, y3, y4] d m y"
    by (simp add: birthday_text_def year_text_def ascii_digit_unicode_decimal)
qed

lemma strptime_dmY_literal_list:
  assumes s: "s = [d1, d2, 46, m1, m2, 46, y1, y2, y3, y4]"
    and a: "ascii_digit d1" "ascii_digit d2" "ascii_digit m1" "ascii_digit m2"
      "ascii_digit y1" "ascii_digit y2" "ascii_digit y3" "ascii_digit y4"
  shows "strptime_dmY s = (if valid_date (literal_date s) then Some (literal_date s) else None)"
proof -
  let ?dt = "literal_date s"
  have pd: "py_int [d1, d2] = Some (day ?dt)"
    and pm: "py_int [m1, m2] = Some (month ?dt)"
    and py: "py_int [y1, y2, y3, y4] = Some (year ?dt)"
    using a by (simp_all add: s literal_date_def py_int_two_ascii py_int_four_ascii)
  have texts: "valid_date ?dt \<Longrightarrow> day_text [d1, d2] \<and> month_text [m1, m2]"
  proof -
    assume v: "valid_date ?dt"
    define dv where "dv = 10 * (d1 - 48) + (d2 - 48)"
    define mv where "mv = 10 * (m1 - 48) + (m2 - 48)"
    have dm: "day ?dt = int dv" "month ?dt = int mv"
      by (simp_all add: s literal_date_def dv_def mv_def)
    from v have "1 \<le> day ?dt" "day ?dt \<le> 31" "1 \<le> month ?dt" "month ?dt \<le> 12"
      using days_in_month_le_31 [of "year ?dt" "month ?dt"] by (simp_all add: valid_date_def)
    with dm have "1 \<le> dv" "dv \<le> 31" "1 \<le> mv" "mv \<le> 12"
      by simp_all
    then show ?thesis
      using a by (simp add: day_text_two_ascii month_text_two_ascii dv_def mv_def)
  qed
  have some: "strptime_dmY s = Some dt \<longleftrightarrow> dt = ?dt \<and> valid_date ?dt" for dt
  proof
    assume "strptime_dmY s = Some dt"
    then obtain d m y dd mm yy where
      bt: "birthday_text s d m y" and
      v: "py_int d = Some dd" "py_int m = Some mm" "py_int y = Some yy"
         "dt = \<lparr>year = yy, month = mm, day = dd\<rparr>" "valid_date dt"
      by (auto simp: strptime_dmY_Some)
    from bt a have "d = [d1, d2]" "m = [m1, m2]" "y = [y1, y2, y3, y4]"
      by (simp_all add: s birthday_text_literal)
    with v pd pm py have "dt = ?dt"
      by simp
    with v show "dt = ?dt \<and> valid_date ?dt"
      by simp
  next
    assume r: "dt = ?dt \<and> valid_date ?dt"
    then have "day_text [d1, d2] \<and> month_text [m1, m2]"
      using texts by simp
    with a have "birthday_text s [d1, d2] [m1, m2] [y1, y2, y3, y4]"
      by (simp add: s birthday_text_literal)
    with pd pm py r show "strptime_dmY s = Some dt"
      unfolding strptime_dmY_Some by (intro exI [of _ "[d1, d2]"] exI [of _ "[m1, m2]"]
        exI [of _ "[y1, y2, y3, y4]"] exI [of _ "day ?dt"] exI [of _ "month ?dt"]
        exI [of _ "year ?dt"]) simp
  qed
  show ?thesis
  proof (cases "valid_date ?dt")
    case True
    with some [of ?dt] show ?thesis
      by simp
  next
    case False
    have "strptime_dmY s = None"
    proof (cases "strptime_dmY s")
      case None
      then show ?thesis .
    next
      case (Some dt)
      with some [of dt] False show ?thesis
        by simp
    qed
    with False show ?thesis
      by simp
  qed
qed

lemma strptime_dmY_literal:
  assumes "literal_DD_MM_YYYY s"
  shows "strptime_dmY s = (if valid_date (literal_date s) then Some (literal_date s) else None)"
  using literal_DD_MM_YYYY_shape [OF assms]
  by (elim exE conjE) (rule strptime_dmY_literal_list)

lemma Birthday_init_Inr: "Birthday_init s = Inr b \<longleftrightarrow> strptime_dmY s = Some (birthday_value b)"
  by (cases b) (auto simp: Birthday_init_def split: option.splits)

lemma Birthday_init_Inl:
  "Birthday_init s = Inl e \<Longrightarrow> e = ValueError (ascii ''Invalid date format. Example: DD.MM.YYYY'')"
  by (auto simp: Birthday_init_def split: option.splits)

text \<open>
  Claim C5, as stated, fails: \<open>1.1.2024\<close> is accepted as a birthday although it is not in
  the literal format \<open>DD.MM.YYYY\<close>.
\<close>

theorem Birthday_init_one_digit_day_accepted:
  "Birthday_init (ascii ''1.1.2024'') = Inr (Birthday \<lparr>year = 2024, month = 1, day = 1\<rparr>) \<and>
   \<not> literal_DD_MM_YYYY (ascii ''1.1.2024'')"
  by (simp add: Birthday_init_1_1_2024) (simp add: literal_DD_MM_YYYY_def ascii_def)

lemma unicode_decimal_value: "unicode_decimal c \<Longrightarrow> \<exists>v. decimal_value c = Some v"
  by (auto simp: unicode_decimal_def)

lemma those_decimal_values:
  "\<forall>c \<in> set t. unicode_decimal c \<Longrightarrow> \<exists>vs. those (map decimal_value t) = Some vs"
  by (induction t) (auto dest: unicode_decimal_value)

lemma py_int_decimals:
  assumes "t \<noteq> []" and "\<forall>c \<in> set t. unicode_decimal c"
  shows "\<exists>n. py_int t = Some n"
proof -
  from assms obtain a r where t: "t = a # r"
    by (cases t) auto
  with assms(2) have "a \<noteq> 32"
    using not_decimal_dot_blank(2) by auto
  with t have "dropWhile (\<lambda>c. c = 32) t = t"
    by simp
  with assms those_decimal_values [of t] show ?thesis
    by (auto simp: py_int_def)
qed

lemma py_int_blank: "py_int (32 # t) = py_int t"
  by (simp add: py_int_def)

lemma between_digit_decimal: "between 49 57 c \<Longrightarrow> unicode_decimal c"
  "between 48 49 c \<Longrightarrow> unicode_decimal c" "between 49 50 c \<Longrightarrow> unicode_decimal c"
  "between 48 50 c \<Longrightarrow> unicode_decimal c"
  by (simp_all add: between_def ascii_digit_unicode_decimal ascii_digit_def)

lemma py_int_day_text: "day_text d \<Longrightarrow> \<exists>n. py_int d = Some n"
proof -
  assume "day_text d"
  then consider a where "d = [a]" "unicode_decimal a"
    | a b where "d = [a, b]" "unicode_decimal a" "unicode_decimal b"
    | b where "d = [32, b]" "unicode_decimal b"
    using ascii_digit_of_char_simps
    by (auto simp: day_text_def between_digit_decimal split: list.splits)
  then show ?thesis
  proof cases
    case 1
    then show ?thesis by (intro py_int_decimals) auto
  next
    case 2
    then show ?thesis by (intro py_int_decimals) auto
  next
    case 3
    then have "\<exists>n. py_int [b] = Some n" by (intro py_int_decimals) auto
    with 3 show ?thesis by (simp add: py_int_blank)
  qed
qed

lemma py_int_month_text: "month_text m \<Longrightarrow> \<exists>n. py_int m = Some n"
proof -
  assume "month_text m"
  then have "m \<noteq> []" "\<forall>c \<in> set m. unicode_decimal c"
    using ascii_digit_of_char_simps
    by (auto simp: month_text_def between_digit_decimal split: list.splits)
  then show ?thesis
    by (rule py_int_decimals)
qed

lemma py_int_year_text: "year_text y \<Longrightarrow> \<exists>n. py_int y = Some n"
proof -
  assume "year_text y"
  then have "y \<noteq> []" "\<forall>c \<in> set y. unicode_decimal c"
    by (auto simp: year_text_def list_all_iff)
  then show ?thesis
    by (rule py_int_decimals)
qed

lemma birthday_text_unique:
  assumes "birthday_text s d m y" and "birthday_text s d' m' y'"
  shows "d' = d \<and> m' = m \<and> y' = y"
proof -
  from assms have "(d, m, y, []) \<in> set (format_regex_match s)"
    "(d', m', y', []) \<in> set (format_regex_match s)"
    by (simp_all add: format_regex_match_set birthday_text_def)
  then have "(d', m', y', []) = (d, m, y, [])"
    using format_regex_match_unique [of "(d', m', y', [])" s "(d, m, y, [])"] by simp
  then show ?thesis
    by simp
qed

lemma Birthday_init_birthday_text:
  assumes "birthday_text s d m y"
  shows "\<exists>dd mm yy.
           py_int d = Some dd \<and> py_int m = Some mm \<and> py_int y = Some yy \<and>
           Birthday_init s =
             (if valid_date \<lparr>year = yy, month = mm, day = dd\<rparr>
              then Inr (Birthday \<lparr>year = yy, month = mm, day = dd\<rparr>)
              else Inl (ValueError (ascii ''Invalid date format. Example: DD.MM.YYYY'')))"
proof -
  from assms obtain dd mm yy where
    p: "py_int d = Some dd" "py_int m = Some mm" "py_int y = Some yy"
    using py_int_day_text [of d] py_int_month_text [of m] py_int_year_text [of y]
    by (auto simp: birthday_text_def)
  let ?dt = "\<lparr>year = yy, month = mm, day = dd\<rparr>"
  have "strptime_dmY s = (if valid_date ?dt then Some ?dt else None)"
  proof (cases "valid_date ?dt")
    case True
    with assms p have "strptime_dmY s = Some ?dt"
      unfolding strptime_dmY_Some by blast
    with True show ?thesis
      by simp
  next
    case False
    have "strptime_dmY s = None"
    proof (cases "strptime_dmY s")
      case None
      then show ?thesis .
    next
      case (Some dt)
      then obtain d' m' y' dd' mm' yy' where
        q: "birthday_text s d' m' y'" "py_int d' = Some dd'" "py_int m' = Some mm'"
           "py_int y' = Some yy'" "dt = \<lparr>year = yy', month = mm', day = dd'\<rparr>" "valid_date dt"
        unfolding strptime_dmY_Some by blast
      from assms q(1) have "d' = d \<and> m' = m \<and> y' = y"
        by (rule birthday_text_unique)
      with p q have "valid_date ?dt"
        by simp
      with False show ?thesis
        by simp
    qed
    with False show ?thesis
      by simp
  qed
  with p show ?thesis
    by (simp add: Birthday_init_def)
qed

text \<open>
  Claim C5, as the code has it. \<open>Birthday\<close> construction succeeds exactly on the strings
  \<open>D.M.Y\<close> where \<open>D\<close>, \<open>M\<close> and \<open>Y\<close> have the shapes that the format accepts and the
  numbers that \<open>int\<close> reads from them are a real calendar date of the years 1 to 9999; its
  value is that date. The shapes: \<open>D\<close> is an ASCII digit \<open>1\<close>-\<open>9\<close>, or \<open>3\<close> followed by
  \<open>0\<close> or \<open>1\<close>, or \<open>1\<close> or \<open>2\<close> followed by any Unicode decimal digit, or \<open>0\<close> followed
  by an ASCII digit \<open>1\<close>-\<open>9\<close>, or a blank followed by an ASCII digit \<open>1\<close>-\<open>9\<close>; \<open>M\<close> is
  an ASCII digit \<open>1\<close>-\<open>9\<close>, or \<open>1\<close> followed by \<open>0\<close>, \<open>1\<close> or \<open>2\<close>, or \<open>0\<close> followed by an
  ASCII digit \<open>1\<close>-\<open>9\<close>; \<open>Y\<close> is exactly four Unicode decimal digits. On a string of
  these shapes the three numbers are always defined, and the construction succeeds if
  and only if they are a real date. On a string in the literal format \<open>DD.MM.YYYY\<close> it
  succeeds if and only if the string denotes a real calendar date. It rejects
  \<open>31.02.2024\<close>, accepts \<open>29.02.2024\<close> and rejects \<open>29.02.2023\<close>. Every failure is the
  \<open>ValueError\<close> "Invalid date format. Example: DD.MM.YYYY", and \<open>add_birthday\<close> then
  leaves the record as it was.
\<close>

theorem Birthday_init_accepts_real_dates:
  "(Birthday_init s = Inr b \<longleftrightarrow>
      (\<exists>d m y dd mm yy.
         birthday_text s d m y \<and> py_int d = Some dd \<and> py_int m = Some mm \<and>
         py_int y = Some yy \<and> birthday_value b = \<lparr>year = yy, month = mm, day = dd\<rparr> \<and>
         valid_date (birthday_value b))) \<and>
   (birthday_text s d m y \<longrightarrow>
      (\<exists>dd mm yy.
         py_int d = Some dd \<and> py_int m = Some mm \<and> py_int y = Some yy \<and>
         Birthday_init s =
           (if valid_date \<lparr>year = yy, month = mm, day = dd\<rparr>
            then Inr (Birthday \<lparr>year = yy, month = mm, day = dd\<rparr>)
            else Inl (ValueError (ascii ''Invalid date format. Example: DD.MM.YYYY''))))) \<and>
   (literal_DD_MM_YYYY s \<longrightarrow>
      Birthday_init s =
        (if valid_date (literal_date s) then Inr (Birthday (literal_date s))
         else Inl (ValueError (ascii ''Invalid date format. Example: DD.MM.YYYY'')))) \<and>
   (Birthday_init s = Inl e \<longrightarrow>
      e = ValueError (ascii ''Invalid date format. Example: DD.MM.YYYY'') \<and>
      add_birthday r s = (Inl e, r)) \<and>
   Birthday_init (ascii ''31.02.2024'') =
     Inl (ValueError (ascii ''Invalid date format. Example: DD.MM.YYYY'')) \<and>
   Birthday_init (ascii ''29.02.2024'') = Inr (Birthday \<lparr>year = 2024, month = 2, day = 29\<rparr>) \<and>
   Birthday_init (ascii ''29.02.2023'') =
     Inl (ValueError (ascii ''Invalid date format. Example: DD.MM.YYYY''))"
proof -
  have 1: "Birthday_init s = Inr b \<longleftrightarrow>
      (\<exists>d m y dd mm yy.
         birthday_text s d m y \<and> py_int d = Some dd \<and> py_int m = Some mm \<and>
         py_int y = Some yy \<and> birthday_value b = \<lparr>year = yy, month = mm, day = dd\<rparr> \<and>
         valid_date (birthday_value b))"
    by (simp only: Birthday_init_Inr strptime_dmY_Some)
  have 2: "birthday_text s d m y \<longrightarrow>
      (\<exists>dd mm yy.
         py_int d = Some dd \<and> py_int m = Some mm \<and> py_int y = Some yy \<and>
         Birthday_init s =
           (if valid_date \<lparr>year = yy, month = mm, day = dd\<rparr>
            then Inr (Birthday \<lparr>year = yy, month = mm, day = dd\<rparr>)
            else Inl (ValueError (ascii ''Invalid date format. Example: DD.MM.YYYY''))))"
    using Birthday_init_birthday_text [of s d m y] by blast
  have 3: "literal_DD_MM_YYYY s \<longrightarrow>
      Birthday_init s =
        (if valid_date (literal_date s) then Inr (Birthday (literal_date s))
         else Inl (ValueError (ascii ''Invalid date format. Example: DD.MM.YYYY'')))"
    by (simp add: Birthday_init_def strptime_dmY_literal)
  have 4: "Birthday_init s = Inl e \<longrightarrow>
      e = ValueError (ascii ''Invalid date format. Example: DD.MM.YYYY'') \<and>
      add_birthday r s = (Inl e, r)"
    by (auto simp: add_birthday_def dest: Birthday_init_Inl)
  from 1 2 3 4 show ?thesis
    by (simp only: Birthday_init_31_02_2024 Birthday_init_29_02_2024 Birthday_init_29_02_2023
        simp_thms)
qed

theorem Birthday_init_accepts_real_dates_witness:
  "literal_DD_MM_YYYY (ascii ''29.02.2024'') \<and>
   valid_date (literal_date (ascii ''29.02.2024'')) \<and>
   Birthday_init (ascii ''29.02.2024'') = Inr (Birthday (literal_date (ascii ''29.02.2024''))) \<and>
   birthday_text (ascii ''29.02.2024'') (ascii ''29'') (ascii ''02'') (ascii ''2024'') \<and>
   (\<exists>dd mm yy.
      py_int (ascii ''29'') = Some dd \<and> py_int (ascii ''02'') = Some mm \<and>
      py_int (ascii ''2024'') = Some yy \<and>
      Birthday_init (ascii ''29.02.2024'') =
        (if valid_date \<lparr>year = yy, month = mm, day = dd\<rparr>
         then Inr (Birthday \<lparr>year = yy, month = mm, day = dd\<rparr>)
         else Inl (ValueError (ascii ''Invalid date format. Example: DD.MM.YYYY'')))) \<and>
   Birthday_init (ascii ''31.02.2024'') =
     Inl (ValueError (ascii ''Invalid date format. Example: DD.MM.YYYY'')) \<and>
   add_birthday alice (ascii ''31.02.2024'') =
     (Inl (ValueError (ascii ''Invalid date format. Example: DD.MM.YYYY'')), alice)"
proof -
  have a: "literal_DD_MM_YYYY (ascii ''29.02.2024'')"
    by (simp add: literal_DD_MM_YYYY_def ascii_def ascii_digit_def)
  have b: "valid_date (literal_date (ascii ''29.02.2024''))"
    by (simp add: valid_date_def literal_date_def ascii_def days_in_month_def is_leap_def)
  have c: "Birthday_init (ascii ''31.02.2024'') =
             Inl (ValueError (ascii ''Invalid date format. Example: DD.MM.YYYY''))"
    by (rule Birthday_init_31_02_2024)
  have d: "birthday_text (ascii ''29.02.2024'') (ascii ''29'') (ascii ''02'') (ascii ''2024'')"
    by (simp add: birthday_text_def day_text_def month_text_def year_text_def between_def
        ascii_def ascii_digit_of_char_simps)
  note t1 = Birthday_init_accepts_real_dates
    [where s = "ascii ''29.02.2024''" and d = "ascii ''29''" and m = "ascii ''02''"
       and y = "ascii ''2024''"]
  note t2 = Birthday_init_accepts_real_dates
    [where s = "ascii ''31.02.2024''" and r = alice
       and e = "ValueError (ascii ''Invalid date format. Example: DD.MM.YYYY'')"]
  from t1 [THEN conjunct2, THEN conjunct2, THEN conjunct1] a b
  have 1: "Birthday_init (ascii ''29.02.2024'') =
      Inr (Birthday (literal_date (ascii ''29.02.2024'')))"
    by simp
  from t1 [THEN conjunct2, THEN conjunct1] d have 2: "\<exists>dd mm yy.
      py_int (ascii ''29'') = Some dd \<and> py_int (ascii ''02'') = Some mm \<and>
      py_int (ascii ''2024'') = Some yy \<and>
      Birthday_init (ascii ''29.02.2024'') =
        (if valid_date \<lparr>year = yy, month = mm, day = dd\<rparr>
         then Inr (Birthday \<lparr>year = yy, month = mm, day = dd\<rparr>)
         else Inl (ValueError (ascii ''Invalid date format. Example: DD.MM.YYYY'')))"
    by blast
  from t2 [THEN conjunct2, THEN conjunct2, THEN conjunct2, THEN conjunct1] c
  have 3: "add_birthday alice (ascii ''31.02.2024'') =
     (Inl (ValueError (ascii ''Invalid date format. Example: DD.MM.YYYY'')), alice)"
    by blast
  from a b c d 1 2 3 show ?thesis
    by blast
qed

section \<open>The occurrence of a birthday\<close>

lemma replace_year_Inr:
  "replace_year d y = Inr d' \<longleftrightarrow> d' = d\<lparr>year := y\<rparr> \<and> valid_date (d\<lparr>year := y\<rparr>)"
  by (cases d) (auto simp: replace_year_def date_new_def valid_date_def)

lemma replace_year_cases:
  "replace_year d y = Inr (d\<lparr>year := y\<rparr>) \<and> valid_date (d\<lparr>year := y\<rparr>) \<or>
   (\<exists>e. replace_year d y = Inl e)"
  by (cases "replace_year d y") (auto simp: replace_year_Inr)

lemma roll_forward_occurrence:
  assumes "replace_year b (year today) = Inr t1"
    and "(if date_lt t1 today then replace_year t1 (year today + 1) else Inr t1) = Inr t2"
  shows "t2 = occurrence today b" and "valid_date t2"
    and "year t2 = year today \<or> year t2 = year today + 1"
proof -
  from assms(1) have t1: "t1 = b\<lparr>year := year today\<rparr>" "valid_date t1"
    by (simp_all add: replace_year_Inr)
  show "t2 = occurrence today b"
    using assms(2) t1 by (auto simp: occurrence_def replace_year_Inr split: if_splits)
  show "valid_date t2"
    using assms(2) t1 by (auto simp: replace_year_Inr split: if_splits)
  show "year t2 = year today \<or> year t2 = year today + 1"
    using assms(2) t1 by (auto simp: replace_year_Inr split: if_splits)
qed

lemma replace_year_not_feb29:
  assumes "valid_date b" and "\<not> feb29 b" and "1 \<le> y" and "y \<le> 9999"
  shows "replace_year b y = Inr (b\<lparr>year := y\<rparr>)"
proof -
  from assms(1,2) have "day b \<le> days_in_month y (month b)"
    by (auto simp: valid_date_def feb29_def days_in_month_def split: if_splits)
  with assms have "valid_date (b\<lparr>year := y\<rparr>)"
    by (simp add: valid_date_def)
  then show ?thesis
    by (simp add: replace_year_Inr)
qed

section \<open>The loop of the query\<close>

lemma upcoming_loop_Inr:
  "upcoming_loop today rs acc = Inr res \<Longrightarrow>
     res = acc @ List.map_filter
       (\<lambda>r. case birthday r of
               None \<Rightarrow> None
             | Some b \<Rightarrow>
                 if in_window today (birthday_value b)
                 then Some \<lparr>entry_name = name_value (name r),
                            congratulation_date =
                              strftime_Ymd (occurrence today (birthday_value b))\<rparr>
                 else None) rs"
proof (induction rs arbitrary: acc)
  case Nil
  then show ?case
    by simp
next
  case (Cons r rs)
  show ?case
  proof (cases "birthday r")
    case None
    with Cons show ?thesis
      by simp
  next
    case (Some b)
    with Cons.prems obtain t1 where t1: "replace_year (birthday_value b) (year today) = Inr t1"
      by (auto split: sum.splits)
    with Cons.prems Some obtain t2 where
      t2: "(if date_lt t1 today then replace_year t1 (year today + 1) else Inr t1) = Inr t2"
      by (auto split: sum.splits)
    from t1 t2 have occ: "t2 = occurrence today (birthday_value b)"
      by (rule roll_forward_occurrence)
    show ?thesis
    proof (cases "in_window today (birthday_value b)")
      case True
      with Cons.prems Some t1 t2 occ
      have "upcoming_loop today rs
              (acc @ [\<lparr>entry_name = name_value (name r),
                       congratulation_date =
                         strftime_Ymd (occurrence today (birthday_value b))\<rparr>]) = Inr res"
        by (simp add: in_window_def Let_def)
      from Cons.IH [OF this] Some True show ?thesis
        by simp
    next
      case False
      with Cons.prems Some t1 t2 occ have "upcoming_loop today rs acc = Inr res"
        by (auto simp: in_window_def Let_def split: if_splits)
      from Cons.IH [OF this] Some False show ?thesis
        by simp
    qed
  qed
qed

lemma upcoming_loop_returns:
  assumes "valid_date today" and "year today < 9999"
    and "\<forall>r \<in> set rs. \<forall>b. birthday r = Some b \<longrightarrow>
           valid_date (birthday_value b) \<and> \<not> feb29 (birthday_value b)"
  shows "\<exists>res. upcoming_loop today rs acc = Inr res"
  using assms(3)
proof (induction rs arbitrary: acc)
  case Nil
  then show ?case
    by simp
next
  case (Cons r rs)
  show ?case
  proof (cases "birthday r")
    case None
    with Cons show ?thesis
      by simp
  next
    case (Some b)
    with Cons.prems have b: "valid_date (birthday_value b)" "\<not> feb29 (birthday_value b)"
      by simp_all
    from assms(1,2) have y: "1 \<le> year today" "year today \<le> 9999" "1 \<le> year today + 1"
      "year today + 1 \<le> 9999"
      by (simp_all add: valid_date_def)
    let ?t1 = "(birthday_value b)\<lparr>year := year today\<rparr>"
    from b y have t1: "replace_year (birthday_value b) (year today) = Inr ?t1"
      by (simp add: replace_year_not_feb29)
    then have v1: "valid_date ?t1"
      by (simp add: replace_year_Inr)
    have "\<not> feb29 ?t1"
      using b(2) by (simp add: feb29_def)
    with v1 y have t2: "replace_year ?t1 (year today + 1) = Inr (?t1\<lparr>year := year today + 1\<rparr>)"
      by (simp add: replace_year_not_feb29)
    from Cons.prems have rest: "\<And>acc'. \<exists>res. upcoming_loop today rs acc' = Inr res"
      by (intro Cons.IH) simp
    show ?thesis
      using Some t1 t2 rest by (simp add: Let_def)
  qed
qed

section \<open>The rendering of the occurrence\<close>

lemma dec_four_digits:
  assumes "1000 \<le> n" and "n \<le> 9999"
  shows "dec n = [48 + n div 1000, 48 + n div 100 mod 10, 48 + n div 10 mod 10, 48 + n mod 10]"
proof -
  from assms have k: "n div 1000 < 10" "\<not> n div 100 < 10" "\<not> n div 10 < 10" "\<not> n < 10"
    by (simp_all add: div_less_iff_less_mult less_eq_div_iff_mult_less_eq not_less)
  have d: "n div 100 div 10 = n div 1000" "n div 10 div 10 = n div 100"
    by (simp_all add: div_mult2_eq [symmetric])
  from k(1) have a: "dec (n div 1000) = [48 + n div 1000]"
    by (subst dec.simps) simp
  from k(2) have "dec (n div 100) = dec (n div 100 div 10) @ [48 + n div 100 mod 10]"
    by (subst dec.simps) simp
  with a d have b: "dec (n div 100) = [48 + n div 1000, 48 + n div 100 mod 10]"
    by simp
  from k(3) have "dec (n div 10) = dec (n div 10 div 10) @ [48 + n div 10 mod 10]"
    by (subst dec.simps) simp
  with b d have c: "dec (n div 10) = [48 + n div 1000, 48 + n div 100 mod 10, 48 + n div 10 mod 10]"
    by simp
  from k(4) have "dec n = dec (n div 10) @ [48 + n mod 10]"
    by (subst dec.simps) simp
  with c show ?thesis
    by simp
qed

lemma ascii_digit_offset: "k < 10 \<Longrightarrow> ascii_digit (48 + k)"
  by (simp add: ascii_digit_def)

lemma strftime_Ymd_literal:
  assumes "valid_date d" and "1000 \<le> year d"
  shows "literal_YYYY_MM_DD (strftime_Ymd d)"
proof -
  let ?y = "nat (year d)" and ?m = "nat (month d)" and ?d = "nat (day d)"
  from assms have y: "1000 \<le> ?y" "?y \<le> 9999"
    by (auto simp: valid_date_def)
  from assms(1) have m: "?m \<le> 12"
    by (auto simp: valid_date_def)
  from assms(1) have dd: "?d \<le> 31"
    using days_in_month_le_31 [of "year d" "month d"] by (auto simp: valid_date_def)
  from y have y1: "?y div 1000 < 10"
    by simp
  from m have m1: "?m div 10 < 10"
    by simp
  from dd have d1: "?d div 10 < 10"
    by simp
  have "strftime_Ymd d =
          [48 + ?y div 1000, 48 + ?y div 100 mod 10, 48 + ?y div 10 mod 10, 48 + ?y mod 10, 46,
           48 + ?m div 10, 48 + ?m mod 10, 46, 48 + ?d div 10, 48 + ?d mod 10]"
    using y by (simp add: strftime_Ymd_def two_digits_def dec_four_digits)
  with y1 m1 d1 show ?thesis
    by (simp add: literal_YYYY_MM_DD_def ascii_digit_offset)
qed

lemma upcoming_loop_dates:
  assumes "1000 \<le> year today"
  shows "upcoming_loop today rs acc = Inr res \<Longrightarrow>
           \<forall>e \<in> set acc. literal_YYYY_MM_DD (congratulation_date e) \<Longrightarrow>
           \<forall>e \<in> set res. literal_YYYY_MM_DD (congratulation_date e)"
proof (induction rs arbitrary: acc)
  case Nil
  then show ?case
    by simp
next
  case (Cons r rs)
  show ?case
  proof (cases "birthday r")
    case None
    with Cons show ?thesis
      by simp
  next
    case (Some b)
    with Cons.prems obtain t1 where t1: "replace_year (birthday_value b) (year today) = Inr t1"
      by (auto split: sum.splits)
    with Cons.prems Some obtain t2 where
      t2: "(if date_lt t1 today then replace_year t1 (year today + 1) else Inr t1) = Inr t2"
      by (auto split: sum.splits)
    from t1 t2 have "valid_date t2" "year t2 = year today \<or> year t2 = year today + 1"
      by (rule roll_forward_occurrence)+
    with assms have lit: "literal_YYYY_MM_DD (strftime_Ymd t2)"
      by (intro strftime_Ymd_literal) auto
    let ?acc' = "acc @ [\<lparr>entry_name = name_value (name r),
                          congratulation_date = strftime_Ymd t2\<rparr>]"
    from Cons.prems(2) lit have acc': "\<forall>e \<in> set ?acc'. literal_YYYY_MM_DD (congratulation_date e)"
      by simp
    from Cons.prems(1) Some t1 t2
    have "upcoming_loop today rs ?acc' = Inr res \<or> upcoming_loop today rs acc = Inr res"
      by (auto simp: Let_def split: if_splits)
    then show ?thesis
      using Cons.IH [of ?acc'] Cons.IH [of acc] acc' Cons.prems(2) by blast
  qed
qed

section \<open>The query on examples\<close>

lemma toordinal_2024_12_30: "toordinal \<lparr>year = 2024, month = 12, day = 30\<rparr> = 739250"
  by (simp add: toordinal_def days_before_year_def days_before_month_def days_in_month_def
      is_leap_def upto.simps [of 1])

lemma toordinal_2025_01_01: "toordinal \<lparr>year = 2025, month = 1, day = 1\<rparr> = 739252"
  by (simp add: toordinal_def days_before_year_def days_before_month_def days_in_month_def
      is_leap_def upto.simps [of 1])

lemma toordinal_2025_01_07: "toordinal \<lparr>year = 2025, month = 1, day = 7\<rparr> = 739258"
  by (simp add: toordinal_def days_before_year_def days_before_month_def days_in_month_def
      is_leap_def upto.simps [of 1])

lemma dec_2025: "dec 2025 = ascii ''2025''"
  by (simp add: dec_four_digits ascii_def)

lemma dec_2024: "dec 2024 = ascii ''2024''"
  by (simp add: dec_four_digits ascii_def)

lemma upcoming_new_year:
  "get_upcoming_birthdays \<lparr>year = 2024, month = 12, day = 30\<rparr>
     [(ascii ''Alice'', alice\<lparr>birthday := Some (Birthday \<lparr>year = 1990, month = 1, day = 1\<rparr>)\<rparr>)] =
     Inr [\<lparr>entry_name = ascii ''Alice'', congratulation_date = ascii ''2025.01.01''\<rparr>]"
  by (simp add: get_upcoming_birthdays_def replace_year_def date_new_def days_in_month_def
      is_leap_def date_lt_def days_between_def toordinal_2024_12_30 toordinal_2025_01_01
      strftime_Ymd_def dec_2025 two_digits_def ascii_def)

lemma upcoming_eight_days:
  "get_upcoming_birthdays \<lparr>year = 2024, month = 12, day = 30\<rparr>
     [(ascii ''Alice'', alice\<lparr>birthday := Some (Birthday \<lparr>year = 1990, month = 1, day = 7\<rparr>)\<rparr>)] =
     Inr []"
  by (simp add: get_upcoming_birthdays_def replace_year_def date_new_def days_in_month_def
      is_leap_def date_lt_def days_between_def toordinal_2024_12_30 toordinal_2025_01_07)

lemma upcoming_same_day:
  "get_upcoming_birthdays \<lparr>year = 2024, month = 12, day = 30\<rparr>
     [(ascii ''Alice'', alice\<lparr>birthday := Some (Birthday \<lparr>year = 1990, month = 12, day = 30\<rparr>)\<rparr>)] =
     Inr [\<lparr>entry_name = ascii ''Alice'', congratulation_date = ascii ''2024.12.30''\<rparr>]"
  by (simp add: get_upcoming_birthdays_def replace_year_def date_new_def days_in_month_def
      is_leap_def date_lt_def days_between_def
      strftime_Ymd_def dec_2024 two_digits_def ascii_def)

text \<open>
  Claim C1, as stated, fails at the end of the calendar: on 30 December 9999 a birthday
  on 1 January has its occurrence two days later, within the window, but the roll forward
  to the year 10000 is outside the range of \<open>date\<close> and the query raises instead of
  returning the record.
\<close>

theorem get_upcoming_birthdays_year_9999_raises:
  "valid_date \<lparr>year = 9999, month = 12, day = 30\<rparr> \<and>
   in_window \<lparr>year = 9999, month = 12, day = 30\<rparr> \<lparr>year = 1990, month = 1, day = 1\<rparr> \<and>
   get_upcoming_birthdays \<lparr>year = 9999, month = 12, day = 30\<rparr>
     [(ascii ''Alice'', alice\<lparr>birthday := Some (Birthday \<lparr>year = 1990, month = 1, day = 1\<rparr>)\<rparr>)] =
     Inl (ValueError (ascii ''year 10000 is out of range''))"
proof -
  have "valid_date \<lparr>year = 9999, month = 12, day = 30\<rparr>"
    by (simp add: valid_date_def days_in_month_def)
  moreover
  have "in_window \<lparr>year = 9999, month = 12, day = 30\<rparr> \<lparr>year = 1990, month = 1, day = 1\<rparr>"
    by (simp add: in_window_def occurrence_def date_lt_def days_between_def toordinal_def
        days_before_year_def days_before_month_def days_in_month_def is_leap_def
        upto.simps [of 1])
  moreover
  have "dec 10000 = ascii ''10000''"
    by (simp add: dec.simps [of 10000] dec_four_digits ascii_def)
  then have "get_upcoming_birthdays \<lparr>year = 9999, month = 12, day = 30\<rparr>
     [(ascii ''Alice'', alice\<lparr>birthday := Some (Birthday \<lparr>year = 1990, month = 1, day = 1\<rparr>)\<rparr>)] =
     Inl (ValueError (ascii ''year 10000 is out of range''))"
    by (simp add: get_upcoming_birthdays_def replace_year_def date_new_def days_in_month_def
        is_leap_def date_lt_def str_int_def ascii_def)
  ultimately show ?thesis
    by simp
qed

text \<open>
  Claim C1, as the code has it. Whenever the query returns, its result is exactly, in the
  insertion order of the book, one entry for each record with a birthday whose occurrence
  (the month and day of the birthday in the year of the reference date, rolled forward
  to the next year if it fell before the reference date) lies 0 to 7 days after the
  reference date; the entry carries the name of the contact and the occurrence as
  rendered by \<open>strftime('%Y.%m.%d')\<close>, which is \<open>YYYY.MM.DD\<close> for reference years from
  1000 on. The query returns whenever the reference year is below 9999 and no stored
  birthday is a 29 February. A birthday \<open>01.01.1990\<close> with reference date 30.12.2024
  is included with \<open>2025.01.01\<close>, an occurrence 8 days out is excluded and an occurrence
  on the reference date is included.
\<close>

theorem get_upcoming_birthdays_window:
  "(get_upcoming_birthdays today book = Inr res \<longrightarrow> res = spec_upcoming today book) \<and>
   (get_upcoming_birthdays today book = Inr res \<and> 1000 \<le> year today \<longrightarrow>
      list_all (\<lambda>e. literal_YYYY_MM_DD (congratulation_date e)) res) \<and>
   (valid_date today \<and> year today < 9999 \<and>
    list_all (\<lambda>r. case birthday r of
                     None \<Rightarrow> True
                   | Some b \<Rightarrow> valid_date (birthday_value b) \<and> \<not> feb29 (birthday_value b))
      (map snd book) \<longrightarrow>
      get_upcoming_birthdays today book = Inr (spec_upcoming today book)) \<and>
   get_upcoming_birthdays \<lparr>year = 2024, month = 12, day = 30\<rparr>
     [(ascii ''Alice'', alice\<lparr>birthday := Some (Birthday \<lparr>year = 1990, month = 1, day = 1\<rparr>)\<rparr>)] =
     Inr [\<lparr>entry_name = ascii ''Alice'', congratulation_date = ascii ''2025.01.01''\<rparr>] \<and>
   get_upcoming_birthdays \<lparr>year = 2024, month = 12, day = 30\<rparr>
     [(ascii ''Alice'', alice\<lparr>birthday := Some (Birthday \<lparr>year = 1990, month = 1, day = 7\<rparr>)\<rparr>)] =
     Inr [] \<and>
   get_upcoming_birthdays \<lparr>year = 2024, month = 12, day = 30\<rparr>
     [(ascii ''Alice'', alice\<lparr>birthday := Some (Birthday \<lparr>year = 1990, month = 12, day = 30\<rparr>)\<rparr>)] =
     Inr [\<lparr>entry_name = ascii ''Alice'', congratulation_date = ascii ''2024.12.30''\<rparr>]"
proof -
  have 1: "get_upcoming_birthdays today book = Inr res \<longrightarrow> res = spec_upcoming today book"
    using upcoming_loop_Inr [of today "map snd book" "[]" res]
    by (simp add: get_upcoming_birthdays_def spec_upcoming_def)
  have 2: "get_upcoming_birthdays today book = Inr res \<and> 1000 \<le> year today \<longrightarrow>
      list_all (\<lambda>e. literal_YYYY_MM_DD (congratulation_date e)) res"
    using upcoming_loop_dates [of today "map snd book" "[]" res]
    by (simp add: get_upcoming_birthdays_def list_all_iff)
  have 3: "valid_date today \<and> year today < 9999 \<and>
    list_all (\<lambda>r. case birthday r of
                     None \<Rightarrow> True
                   | Some b \<Rightarrow> valid_date (birthday_value b) \<and> \<not> feb29 (birthday_value b))
      (map snd book) \<longrightarrow>
      get_upcoming_birthdays today book = Inr (spec_upcoming today book)"
  proof
    assume a: "valid_date today \<and> year today < 9999 \<and>
      list_all (\<lambda>r. case birthday r of
                     None \<Rightarrow> True
                   | Some b \<Rightarrow> valid_date (birthday_value b) \<and> \<not> feb29 (birthday_value b))
        (map snd book)"
    then have "\<forall>r \<in> set (map snd book). \<forall>b. birthday r = Some b \<longrightarrow>
           valid_date (birthday_value b) \<and> \<not> feb29 (birthday_value b)"
      by (auto simp: list_all_iff)
    with a obtain out where out: "upcoming_loop today (map snd book) [] = Inr out"
      using upcoming_loop_returns [of today "map snd book" "[]"] by blast
    then have "out = spec_upcoming today book"
      using upcoming_loop_Inr [of today "map snd book" "[]" out] by (simp add: spec_upcoming_def)
    with out show "get_upcoming_birthdays today book = Inr (spec_upcoming today book)"
      by (simp add: get_upcoming_birthdays_def)
  qed
  from 1 2 3 show ?thesis
    by (simp only: upcoming_new_year upcoming_eight_days upcoming_same_day simp_thms)
qed

theorem get_upcoming_birthdays_window_witness:
  "valid_date \<lparr>year = 2024, month = 12, day = 30\<rparr> \<and>
   valid_date \<lparr>year = 1990, month = 1, day = 1\<rparr> \<and>
   \<not> feb29 \<lparr>year = 1990, month = 1, day = 1\<rparr> \<and>
   get_upcoming_birthdays \<lparr>year = 2024, month = 12, day = 30\<rparr>
     [(ascii ''Alice'', alice\<lparr>birthday := Some (Birthday \<lparr>year = 1990, month = 1, day = 1\<rparr>)\<rparr>)] =
     Inr (spec_upcoming \<lparr>year = 2024, month = 12, day = 30\<rparr>
       [(ascii ''Alice'',
         alice\<lparr>birthday := Some (Birthday \<lparr>year = 1990, month = 1, day = 1\<rparr>)\<rparr>)]) \<and>
   spec_upcoming \<lparr>year = 2024, month = 12, day = 30\<rparr>
     [(ascii ''Alice'', alice\<lparr>birthday := Some (Birthday \<lparr>year = 1990, month = 1, day = 1\<rparr>)\<rparr>)] =
     [\<lparr>entry_name = ascii ''Alice'', congratulation_date = ascii ''2025.01.01''\<rparr>] \<and>
   literal_YYYY_MM_DD (ascii ''2025.01.01'')"
proof -
  let ?today = "\<lparr>year = 2024, month = 12, day = 30\<rparr>"
  let ?book = "[(ascii ''Alice'',
                 alice\<lparr>birthday := Some (Birthday \<lparr>year = 1990, month = 1, day = 1\<rparr>)\<rparr>)]"
  let ?res = "[\<lparr>entry_name = ascii ''Alice'', congratulation_date = ascii ''2025.01.01''\<rparr>]"
  have a: "valid_date ?today"
    by (simp add: valid_date_def days_in_month_def)
  have b: "valid_date \<lparr>year = 1990, month = 1, day = 1\<rparr>"
    by (simp add: valid_date_def days_in_month_def)
  have c: "\<not> feb29 \<lparr>year = 1990, month = 1, day = 1\<rparr>"
    by (simp add: feb29_def)
  have d: "get_upcoming_birthdays ?today ?book = Inr ?res"
    by (rule upcoming_new_year)
  have e: "year ?today < 9999" "1000 \<le> year ?today"
    by simp_all
  from b c have f: "list_all (\<lambda>r. case birthday r of
                     None \<Rightarrow> True
                   | Some b \<Rightarrow> valid_date (birthday_value b) \<and> \<not> feb29 (birthday_value b))
      (map snd ?book)"
    by simp
  note t = get_upcoming_birthdays_window [of ?today ?book ?res]
  from t d have g: "?res = spec_upcoming ?today ?book"
    by blast
  from t d e have "list_all (\<lambda>e. literal_YYYY_MM_DD (congratulation_date e)) ?res"
    by blast
  then have h: "literal_YYYY_MM_DD (ascii ''2025.01.01'')"
    by simp
  from t a e f have i: "get_upcoming_birthdays ?today ?book = Inr (spec_upcoming ?today ?book)"
    by blast
  from a b c g h i show ?thesis
    by simp
qed

end
